theory Spec2Isabelle
  imports Main "HOL-Library.Word"
begin

section \<open>mysqlxx::Pool: a bounded pool of MySQL connections\<close>

text \<open>
  A shallow embedding of \<^verbatim>\<open>libs/libmysqlxx/include/mysqlxx/Pool.h\<close>: the class
  \<^verbatim>\<open>Pool\<close>, its nested \<^verbatim>\<open>Pool::Connection\<close> (a session and its reference count) and
  \<^verbatim>\<open>Pool::Entry\<close> (the handle given to callers).

  The model is sequential: one call of \<^verbatim>\<open>Get\<close>, \<^verbatim>\<open>tryGet\<close> or of an \<^verbatim>\<open>Entry\<close> member runs
  from its start to its end. The mutex is visible as the events \<open>Lock\<close> and \<open>Unlock\<close> of
  the trace. Calls of the logger are left out: nothing in the class reads them back.
\<close>

subsection \<open>Exceptions\<close>

text \<open>
  The exceptions that leave the class. \<open>ConnectionFailed\<close> is \<^verbatim>\<open>mysqlxx::ConnectionFailed\<close>
  with its \<^verbatim>\<open>errnum()\<close>; \<open>ExecuteFailed\<close> is what \<^verbatim>\<open>Query::execute\<close> raised;
  \<open>NotFoundException\<close> is what \<^verbatim>\<open>cfg.getString(key)\<close> raises for a missing key;
  \<open>PocoException\<close> and \<open>RuntimeException\<close> are the \<^verbatim>\<open>Poco::Exception\<close> and
  \<^verbatim>\<open>Poco::RuntimeException\<close> the class throws itself, with their message.
\<close>

datatype exn =
    ConnectionFailed int
  | ExecuteFailed string
  | NotFoundException string
  | PocoException string
  | RuntimeException string

text \<open>
  Modelled from the spec: the three error codes the spec calls \<^verbatim>\<open>DB_ACCESS_DENIED\<close>,
  \<^verbatim>\<open>ACCESS_DENIED\<close> and \<^verbatim>\<open>BAD_DB\<close>. The header \<^verbatim>\<open>mysql/mysqld_error.h\<close> that defines
  them is not among the sources; the numbers are those of MySQL. No theorem below depends
  on the numbers, only on the three names.
\<close>

definition ER_DBACCESS_DENIED_ERROR :: int where
  "ER_DBACCESS_DENIED_ERROR = 1044"

definition ER_ACCESS_DENIED_ERROR :: int where
  "ER_ACCESS_DENIED_ERROR = 1045"

definition ER_BAD_DB_ERROR :: int where
  "ER_BAD_DB_ERROR = 1049"

definition MYSQLXX_POOL_SLEEP_ON_CONNECT_FAIL :: nat where
  "MYSQLXX_POOL_SLEEP_ON_CONNECT_FAIL = 10"

subsection \<open>The environment\<close>

text \<open>
  Modelled from the spec: the driver (\<^verbatim>\<open>mysqlxx::Connection::connect\<close>, \<^verbatim>\<open>ping\<close>,
  \<^verbatim>\<open>Query::execute\<close>), the configuration store and \<^verbatim>\<open>Daemon::isCancelled\<close> are not among
  the sources. They are a parameter of every function: the configuration as a map, and for
  each of the four calls the outcome of its \<open>k\<close>-th invocation, for every \<open>k\<close>. Any
  behaviour of the environment in a sequential run is one such parameter.
  \<^item> \<open>connect_result d k\<close>: \<open>None\<close> when the \<open>k\<close>-th \<^verbatim>\<open>connect\<close> succeeds, \<open>Some errnum\<close>
    when it raises \<^verbatim>\<open>ConnectionFailed\<close>;
  \<^item> \<open>ping_result d k\<close>: what the \<open>k\<close>-th \<^verbatim>\<open>ping\<close> returns;
  \<^item> \<open>execute_result d k\<close>: \<open>None\<close> when the \<open>k\<close>-th \<^verbatim>\<open>execute\<close> succeeds, \<open>Some msg\<close> when
    it raises;
  \<^item> \<open>cancelled_result d k\<close>: what the \<open>k\<close>-th \<^verbatim>\<open>isCancelled()\<close> returns.
\<close>

record env =
  cfg :: "string \<Rightarrow> string option"
  connect_result :: "nat \<Rightarrow> int option"
  ping_result :: "nat \<Rightarrow> bool"
  execute_result :: "nat \<Rightarrow> string option"
  cancelled_result :: "nat \<Rightarrow> bool"

text \<open>
  What the calls leave behind: how many of each kind were made, and the trace of the
  effects in their order. \<open>Connect a\<close>, \<open>Ping a\<close> and \<open>Execute a q\<close> name the
  \<^verbatim>\<open>Pool::Connection\<close> whose session they act on.
\<close>

datatype event =
    Lock
  | Unlock
  | Yield
  | Sleep nat
  | Connect nat
  | Ping nat
  | Execute nat string
  | IsCancelled

record world =
  connects :: nat
  pings :: nat
  executes :: nat
  cancel_checks :: nat
  trace :: "event list"

definition emit :: "event \<Rightarrow> world \<Rightarrow> world" where
  "emit ev w = w\<lparr>trace := trace w @ [ev]\<rparr>"

definition conn_connect :: "env \<Rightarrow> nat \<Rightarrow> world \<Rightarrow> int option \<times> world" where
  "conn_connect d a w =
     (connect_result d (connects w), emit (Connect a) (w\<lparr>connects := connects w + 1\<rparr>))"

definition conn_ping :: "env \<Rightarrow> nat \<Rightarrow> world \<Rightarrow> bool \<times> world" where
  "conn_ping d a w = (ping_result d (pings w), emit (Ping a) (w\<lparr>pings := pings w + 1\<rparr>))"

definition query_execute :: "env \<Rightarrow> nat \<Rightarrow> string \<Rightarrow> world \<Rightarrow> string option \<times> world" where
  "query_execute d a q w =
     (execute_result d (executes w), emit (Execute a q) (w\<lparr>executes := executes w + 1\<rparr>))"

definition isCancelled :: "env \<Rightarrow> world \<Rightarrow> bool \<times> world" where
  "isCancelled d w =
     (cancelled_result d (cancel_checks w),
      emit IsCancelled (w\<lparr>cancel_checks := cancel_checks w + 1\<rparr>))"

definition getString :: "env \<Rightarrow> string \<Rightarrow> exn + string" where
  "getString d key = (case cfg d key of None \<Rightarrow> Inl (NotFoundException key) | Some v \<Rightarrow> Inr v)"

definition getString_default :: "env \<Rightarrow> string \<Rightarrow> string \<Rightarrow> string" where
  "getString_default d key dflt = (case cfg d key of None \<Rightarrow> dflt | Some v \<Rightarrow> v)"

subsection \<open>Pool::Connection and Pool::Entry\<close>

text \<open>
  \<^verbatim>\<open>struct Connection { mysqlxx::Connection conn; int ref_count; }\<close>. The session \<^verbatim>\<open>conn\<close>
  belongs to the driver, so the record keeps the count. The pool holds its connections in
  a \<^verbatim>\<open>std::list<Connection *>\<close> to which it only ever appends; a pointer to a
  \<^verbatim>\<open>Connection\<close> is modelled as the position of that connection in the list, and \<open>None\<close>
  is \<^verbatim>\<open>NULL\<close>. The connection that \<^verbatim>\<open>AllocConnection\<close> has created and not yet appended is
  named by the position it would take.
\<close>

record Connection =
  ref_count :: int

record Entry =
  data :: "nat option"
  pool :: "nat option"

definition inc_ref :: "nat \<Rightarrow> Connection list \<Rightarrow> Connection list" where
  "inc_ref a cs = cs[a := (cs ! a)\<lparr>ref_count := ref_count (cs ! a) + 1\<rparr>]"

definition dec_ref :: "nat \<Rightarrow> Connection list \<Rightarrow> Connection list" where
  "dec_ref a cs = cs[a := (cs ! a)\<lparr>ref_count := ref_count (cs ! a) - 1\<rparr>]"

text \<open>\<^verbatim>\<open>Entry() : data(NULL), pool(NULL) {}\<close>\<close>

definition Entry_default :: Entry where
  "Entry_default = \<lparr>data = None, pool = None\<rparr>"

text \<open>\<^verbatim>\<open>Entry(Pool::Connection * conn, Pool * p)\<close>\<close>

definition Entry_ctor :: "nat option \<Rightarrow> nat option \<Rightarrow> Connection list \<Rightarrow> Entry \<times> Connection list" where
  "Entry_ctor conn p cs =
     (\<lparr>data = conn, pool = p\<rparr>, case conn of None \<Rightarrow> cs | Some a \<Rightarrow> inc_ref a cs)"

text \<open>\<^verbatim>\<open>Entry(const Entry & src)\<close>\<close>

definition Entry_copy :: "Entry \<Rightarrow> Connection list \<Rightarrow> Entry \<times> Connection list" where
  "Entry_copy src cs =
     (\<lparr>data = data src, pool = pool src\<rparr>, case data src of None \<Rightarrow> cs | Some a \<Rightarrow> inc_ref a cs)"

text \<open>\<^verbatim>\<open>~Entry()\<close>\<close>

definition Entry_dtor :: "Entry \<Rightarrow> Connection list \<Rightarrow> Connection list" where
  "Entry_dtor e cs = (case data e of None \<Rightarrow> cs | Some a \<Rightarrow> dec_ref a cs)"

text \<open>\<^verbatim>\<open>Entry & operator= (const Entry & src)\<close>, on the entry \<open>this\<close>.\<close>

definition Entry_assign :: "Entry \<Rightarrow> Entry \<Rightarrow> Connection list \<Rightarrow> Entry \<times> Connection list" where
  "Entry_assign this src cs =
     (let cs1 = (case data this of None \<Rightarrow> cs | Some a \<Rightarrow> dec_ref a cs);
          cs2 = (case data src of None \<Rightarrow> cs1 | Some b \<Rightarrow> inc_ref b cs1)
      in (\<lparr>data = data src, pool = pool src\<rparr>, cs2))"

definition isNull :: "Entry \<Rightarrow> bool" where
  "isNull e = (data e = None)"

subsection \<open>The pool\<close>

record Pool =
  DefaultConnections :: "32 word"
  MaxConnections :: "32 word"
  InitConnect :: string
  Initialized :: bool
  Connections :: "Connection list"
  config_name :: string
  description :: string
  was_successful :: bool

definition Pool_ctor :: "string \<Rightarrow> 32 word \<Rightarrow> 32 word \<Rightarrow> string \<Rightarrow> Pool" where
  "Pool_ctor cfg_name DefConn MaxConn init_connect =
     \<lparr>DefaultConnections = DefConn, MaxConnections = MaxConn, InitConnect = init_connect,
      Initialized = False, Connections = [], config_name = cfg_name, description = [],
      was_successful = False\<rparr>"

definition getDescription :: "Pool \<Rightarrow> string" where
  "getDescription p = description p"

text \<open>
  \<^verbatim>\<open>afterConnect(Conn)\<close>: the statement \<^verbatim>\<open>InitConnect\<close>, when it is not empty, is executed on
  the session of connection \<open>a\<close>.
\<close>

definition afterConnect :: "env \<Rightarrow> Pool \<Rightarrow> nat \<Rightarrow> world \<Rightarrow> (exn + unit) \<times> world" where
  "afterConnect d p a w =
     (if InitConnect p \<noteq> [] then
        (case query_execute d a (InitConnect p) w of
           (None, w') \<Rightarrow> (Inr (), w')
         | (Some msg, w') \<Rightarrow> (Inl (ExecuteFailed msg), w'))
      else (Inr (), w))"

text \<open>
  \<^verbatim>\<open>AllocConnection(dont_throw_if_failed_first_time)\<close>. \<open>Inr None\<close> is the \<^verbatim>\<open>NULL\<close> it returns
  after a failure it swallows, \<open>Inr (Some c)\<close> the new connection.
\<close>

definition AllocConnection ::
  "env \<Rightarrow> bool \<Rightarrow> Pool \<Rightarrow> world \<Rightarrow> (exn + nat option) \<times> Pool \<times> world" where
  "AllocConnection d dont_throw_if_failed_first_time p w =
     (let Conn = length (Connections p) in
      case conn_connect d Conn w of
        (Some errnum, w1) \<Rightarrow>
          (if (\<not> was_successful p \<and> \<not> dont_throw_if_failed_first_time)
               \<or> errnum = ER_ACCESS_DENIED_ERROR
               \<or> errnum = ER_DBACCESS_DENIED_ERROR
               \<or> errnum = ER_BAD_DB_ERROR
           then (Inl (ConnectionFailed errnum), p, w1)
           else (case isCancelled d w1 of
                   (True, w2) \<Rightarrow>
                     (Inl (PocoException
                        ''Daemon is cancelled while trying to connect to MySQL server.''), p, w2)
                 | (False, w2) \<Rightarrow> (Inr None, p, w2)))
      | (None, w1) \<Rightarrow>
          (let p1 = p\<lparr>was_successful := True\<rparr> in
           case afterConnect d p1 Conn w1 of
             (Inl e, w2) \<Rightarrow> (Inl e, p1, w2)
           | (Inr u, w2) \<Rightarrow>
               (Inr (Some Conn), p1\<lparr>Connections := Connections p1 @ [\<lparr>ref_count = 0\<rparr>]\<rparr>, w2)))"

text \<open>
  The description \<^verbatim>\<open>db@host:port as user user\<close>. Only \<^verbatim>\<open>db\<close> has a default. C++ leaves
  open in which order the four lookups run; the model asks for host, port and user in that
  order, which decides only which missing key the exception names.
\<close>

definition compose_description :: "env \<Rightarrow> string \<Rightarrow> exn + string" where
  "compose_description d name =
     (case getString d (name @ ''.host'') of
        Inl e \<Rightarrow> Inl e
      | Inr host \<Rightarrow>
          (case getString d (name @ ''.port'') of
             Inl e \<Rightarrow> Inl e
           | Inr port \<Rightarrow>
               (case getString d (name @ ''.user'') of
                  Inl e \<Rightarrow> Inl e
                | Inr user \<Rightarrow>
                    Inr (getString_default d (name @ ''.db'') [] @ ''@'' @ host @ '':'' @ port
                         @ '' as user '' @ user))))"

text \<open>
  The loop \<^verbatim>\<open>for (unsigned i = 0; i < DefaultConnections; i++) AllocConnection();\<close> of
  \<^verbatim>\<open>Initialize\<close>: the value \<^verbatim>\<open>AllocConnection\<close> returns is dropped, an exception ends the loop.
\<close>

fun alloc_default :: "nat \<Rightarrow> env \<Rightarrow> Pool \<Rightarrow> world \<Rightarrow> (exn + unit) \<times> Pool \<times> world" where
  "alloc_default 0 d p w = (Inr (), p, w)"
| "alloc_default (Suc n) d p w =
     (case AllocConnection d False p w of
        (Inl e, p', w') \<Rightarrow> (Inl e, p', w')
      | (Inr c, p', w') \<Rightarrow> alloc_default n d p' w')"

definition Initialize :: "env \<Rightarrow> Pool \<Rightarrow> world \<Rightarrow> (exn + unit) \<times> Pool \<times> world" where
  "Initialize d p w =
     (if \<not> Initialized p then
        (case compose_description d (config_name p) of
           Inl e \<Rightarrow> (Inl e, p, w)
         | Inr desc \<Rightarrow>
             (case alloc_default (unat (DefaultConnections p)) d (p\<lparr>description := desc\<rparr>) w of
                (Inl e, p', w') \<Rightarrow> (Inl e, p', w')
              | (Inr u, p', w') \<Rightarrow> (Inr (), p'\<lparr>Initialized := True\<rparr>, w')))
      else (Inr (), p, w))"

text \<open>
  The scan \<^verbatim>\<open>for (it = Connections.begin(); ...) if ((*it)->ref_count == 0)\<close>: the first
  connection nobody holds, counting positions from \<open>i\<close>.
\<close>

fun find_idle :: "Connection list \<Rightarrow> nat \<Rightarrow> nat option" where
  "find_idle [] i = None"
| "find_idle (c # cs) i = (if ref_count c = 0 then Some i else find_idle cs (Suc i))"

text \<open>
  \<^verbatim>\<open>lock.unlock(); sched_yield(); ::sleep(MYSQLXX_POOL_SLEEP_ON_CONNECT_FAIL); lock.lock();\<close>
\<close>

definition backoff :: "world \<Rightarrow> world" where
  "backoff w =
     emit Lock (emit (Sleep MYSQLXX_POOL_SLEEP_ON_CONNECT_FAIL) (emit Yield (emit Unlock w)))"

text \<open>
  The loop \<^verbatim>\<open>for (;;)\<close> of \<^verbatim>\<open>Get\<close>, which may run forever: \<open>fuel\<close> bounds the number of its
  rounds and \<open>None\<close> says that the bound was reached. \<open>this\<close> is the address of the pool,
  which the entry keeps.
\<close>

fun Get_loop ::
  "nat \<Rightarrow> env \<Rightarrow> nat \<Rightarrow> Pool \<Rightarrow> world \<Rightarrow> ((exn + Entry) \<times> Pool \<times> world) option" where
  "Get_loop 0 d this p w = None"
| "Get_loop (Suc fuel) d this p w =
     (case find_idle (Connections p) 0 of
        Some it \<Rightarrow>
          (case Entry_ctor (Some it) (Some this) (Connections p) of
             (e, cs) \<Rightarrow> Some (Inr e, p\<lparr>Connections := cs\<rparr>, w))
      | None \<Rightarrow>
          (if length (Connections p) < unat (MaxConnections p) then
             (case AllocConnection d False p w of
                (Inl x, p', w') \<Rightarrow> Some (Inl x, p', w')
              | (Inr (Some conn), p', w') \<Rightarrow>
                  (case Entry_ctor (Some conn) (Some this) (Connections p') of
                     (e, cs) \<Rightarrow> Some (Inr e, p'\<lparr>Connections := cs\<rparr>, w'))
              | (Inr None, p', w') \<Rightarrow> Get_loop fuel d this p' (backoff w'))
           else Get_loop fuel d this p (backoff w)))"

text \<open>
  \<^verbatim>\<open>Entry Get()\<close>. The scoped lock is taken first and released on every way out, also
  when an exception leaves.
\<close>

definition Get ::
  "nat \<Rightarrow> env \<Rightarrow> nat \<Rightarrow> Pool \<Rightarrow> world \<Rightarrow> ((exn + Entry) \<times> Pool \<times> world) option" where
  "Get fuel d this p w =
     (case Initialize d p (emit Lock w) of
        (Inl x, p', w') \<Rightarrow> Some (Inl x, p', emit Unlock w')
      | (Inr u, p', w') \<Rightarrow>
          (case Get_loop fuel d this p' w' of
             None \<Rightarrow> None
           | Some (r, p'', w'') \<Rightarrow> Some (r, p'', emit Unlock w'')))"

text \<open>\<^verbatim>\<open>bool tryForceConnected() const { return data->conn.ping(); }\<close>, for \<^verbatim>\<open>data\<close> at \<open>a\<close>.\<close>

definition tryForceConnected :: "env \<Rightarrow> nat \<Rightarrow> world \<Rightarrow> bool \<times> world" where
  "tryForceConnected d a w = conn_ping d a w"

text \<open>
  \<^verbatim>\<open>Entry tryGet()\<close>. In \<^verbatim>\<open>return res.tryForceConnected() ? res : Entry();\<close> the value
  returned is a copy of \<^verbatim>\<open>res\<close> or a default entry, and the local \<^verbatim>\<open>res\<close> is destroyed on
  the way out.
\<close>

definition tryGet :: "env \<Rightarrow> nat \<Rightarrow> Pool \<Rightarrow> world \<Rightarrow> (exn + Entry) \<times> Pool \<times> world" where
  "tryGet d this p w =
     (case Initialize d p (emit Lock w) of
        (Inl x, p1, w1) \<Rightarrow> (Inl x, p1, emit Unlock w1)
      | (Inr u, p1, w1) \<Rightarrow>
          (case find_idle (Connections p1) 0 of
             Some it \<Rightarrow>
               (case Entry_ctor (Some it) (Some this) (Connections p1) of
                  (res, cs1) \<Rightarrow>
                    (case tryForceConnected d it w1 of
                       (True, w2) \<Rightarrow>
                         (case Entry_copy res cs1 of
                            (ret, cs2) \<Rightarrow>
                              (Inr ret, p1\<lparr>Connections := Entry_dtor res cs2\<rparr>, emit Unlock w2))
                     | (False, w2) \<Rightarrow>
                         (Inr Entry_default, p1\<lparr>Connections := Entry_dtor res cs1\<rparr>,
                          emit Unlock w2)))
           | None \<Rightarrow>
               (if length (Connections p1) \<ge> unat (MaxConnections p1) then
                  (Inl (PocoException ''mysqlxx::Pool is full''), p1, emit Unlock w1)
                else
                  (case AllocConnection d True p1 w1 of
                     (Inl x, p2, w2) \<Rightarrow> (Inl x, p2, emit Unlock w2)
                   | (Inr (Some conn), p2, w2) \<Rightarrow>
                       (case Entry_ctor (Some conn) (Some this) (Connections p2) of
                          (e, cs) \<Rightarrow> (Inr e, p2\<lparr>Connections := cs\<rparr>, emit Unlock w2))
                   | (Inr None, p2, w2) \<Rightarrow> (Inr Entry_default, p2, emit Unlock w2)))))"

subsection \<open>Access through an entry\<close>

text \<open>
  The loop \<^verbatim>\<open>do { if (first) first = false; else ::sleep(5); ... connect ... }
  while (!data->conn.ping());\<close> of \<^verbatim>\<open>ForceConnected\<close>, with \<open>fuel\<close> as in \<open>Get_loop\<close>. An
  exception of \<^verbatim>\<open>connect\<close> leaves the loop as it is.
\<close>

fun reconnect_loop ::
  "nat \<Rightarrow> env \<Rightarrow> nat \<Rightarrow> bool \<Rightarrow> world \<Rightarrow> ((exn + unit) \<times> world) option" where
  "reconnect_loop 0 d a first w = None"
| "reconnect_loop (Suc fuel) d a first w =
     (case conn_connect d a (if first then w else emit (Sleep 5) w) of
        (Some errnum, w2) \<Rightarrow> Some (Inl (ConnectionFailed errnum), w2)
      | (None, w2) \<Rightarrow>
          (case conn_ping d a w2 of
             (True, w3) \<Rightarrow> Some (Inr (), w3)
           | (False, w3) \<Rightarrow> reconnect_loop fuel d a False w3))"

text \<open>
  \<^verbatim>\<open>void ForceConnected() const\<close>, for \<^verbatim>\<open>data\<close> at \<open>a\<close> and \<^verbatim>\<open>pool\<close> at \<open>p\<close>. It is called
  where \<^verbatim>\<open>data\<close> is not \<^verbatim>\<open>NULL\<close> only.
\<close>

definition ForceConnected ::
  "nat \<Rightarrow> env \<Rightarrow> nat \<Rightarrow> Pool \<Rightarrow> world \<Rightarrow> ((exn + unit) \<times> world) option" where
  "ForceConnected fuel d a p w =
     (case conn_ping d a w of
        (True, w1) \<Rightarrow> Some (Inr (), w1)
      | (False, w1) \<Rightarrow>
          (case reconnect_loop fuel d a True w1 of
             None \<Rightarrow> None
           | Some (Inl x, w2) \<Rightarrow> Some (Inl x, w2)
           | Some (Inr u, w2) \<Rightarrow> Some (afterConnect d p a w2)))"

text \<open>
  \<^verbatim>\<open>operator->\<close> and the conversions to \<^verbatim>\<open>mysqlxx::Connection &\<close>, which have one body:
  the value is the connection whose session the caller gets.
\<close>

definition Entry_access ::
  "nat \<Rightarrow> env \<Rightarrow> Entry \<Rightarrow> Pool \<Rightarrow> world \<Rightarrow> ((exn + nat) \<times> world) option" where
  "Entry_access fuel d e p w =
     (case data e of
        None \<Rightarrow> Some (Inl (RuntimeException ''Tried to access NULL database connection.''), w)
      | Some a \<Rightarrow>
          (case ForceConnected fuel d a p w of
             None \<Rightarrow> None
           | Some (Inl x, w') \<Rightarrow> Some (Inl x, w')
           | Some (Inr u, w') \<Rightarrow> Some (Inr a, w')))"

subsection \<open>Entries as objects of a program\<close>

text \<open>
  To speak of all the entries a program holds, the entries live in a store: position \<open>h\<close>
  of \<open>entries\<close> is \<open>Some e\<close> while the entry object \<open>h\<close> is alive and \<open>None\<close> once it is
  destroyed. An operation constructs a new entry (which takes the next position), assigns
  one live entry to another, or destroys one.

  C++ gives a program no defined behaviour when it uses a destroyed entry, hands the
  constructor a pointer to no connection, or takes the \<^verbatim>\<open>int ref_count\<close> beyond the range
  of \<^verbatim>\<open>int\<close>. \<open>apply_op\<close> is \<open>None\<close> in these cases, and otherwise runs the member of
  \<^verbatim>\<open>Entry\<close> as defined above.
\<close>

definition INT_MAX :: int where
  "INT_MAX = 2147483647"

definition INT_MIN :: int where
  "INT_MIN = - 2147483648"

record store =
  conns :: "Connection list"
  entries :: "Entry option list"

datatype entry_op =
    Op_default
  | Op_ctor "nat option" "nat option"
  | Op_copy nat
  | Op_assign nat nat
  | Op_dtor nat

definition lookup_entry :: "Entry option list \<Rightarrow> nat \<Rightarrow> Entry option" where
  "lookup_entry es h = (if h < length es then es ! h else None)"

definition can_inc :: "nat option \<Rightarrow> Connection list \<Rightarrow> bool" where
  "can_inc conn cs =
     (case conn of None \<Rightarrow> True | Some a \<Rightarrow> a < length cs \<and> ref_count (cs ! a) < INT_MAX)"

definition can_dec :: "nat option \<Rightarrow> Connection list \<Rightarrow> bool" where
  "can_dec conn cs =
     (case conn of None \<Rightarrow> True | Some a \<Rightarrow> a < length cs \<and> INT_MIN < ref_count (cs ! a))"

fun apply_op :: "entry_op \<Rightarrow> store \<Rightarrow> store option" where
  "apply_op Op_default st = Some (st\<lparr>entries := entries st @ [Some Entry_default]\<rparr>)"
| "apply_op (Op_ctor conn p) st =
     (if can_inc conn (conns st) then
        (case Entry_ctor conn p (conns st) of
           (e, cs) \<Rightarrow> Some \<lparr>conns = cs, entries = entries st @ [Some e]\<rparr>)
      else None)"
| "apply_op (Op_copy src) st =
     (case lookup_entry (entries st) src of
        None \<Rightarrow> None
      | Some s \<Rightarrow>
          (if can_inc (data s) (conns st) then
             (case Entry_copy s (conns st) of
                (e, cs) \<Rightarrow> Some \<lparr>conns = cs, entries = entries st @ [Some e]\<rparr>)
           else None))"
| "apply_op (Op_assign dst src) st =
     (case lookup_entry (entries st) dst of
        None \<Rightarrow> None
      | Some t \<Rightarrow>
          (case lookup_entry (entries st) src of
             None \<Rightarrow> None
           | Some s \<Rightarrow>
               (if can_dec (data t) (conns st)
                   \<and> can_inc (data s) (Entry_dtor t (conns st)) then
                  (case Entry_assign t s (conns st) of
                     (e, cs) \<Rightarrow> Some \<lparr>conns = cs, entries = (entries st)[dst := Some e]\<rparr>)
                else None)))"
| "apply_op (Op_dtor h) st =
     (case lookup_entry (entries st) h of
        None \<Rightarrow> None
      | Some e \<Rightarrow>
          (if can_dec (data e) (conns st) then
             Some \<lparr>conns = Entry_dtor e (conns st), entries = (entries st)[h := None]\<rparr>
           else None))"

fun run_ops :: "entry_op list \<Rightarrow> store \<Rightarrow> store option" where
  "run_ops [] st = Some st"
| "run_ops (x # xs) st = (case apply_op x st of None \<Rightarrow> None | Some st' \<Rightarrow> run_ops xs st')"

text \<open>The number of live entries whose \<^verbatim>\<open>data\<close> points to connection \<open>a\<close>.\<close>

definition refers_to :: "nat \<Rightarrow> Entry option \<Rightarrow> bool" where
  "refers_to a x = (case x of None \<Rightarrow> False | Some e \<Rightarrow> data e = Some a)"

definition handles_on :: "store \<Rightarrow> nat \<Rightarrow> nat" where
  "handles_on st a = length (filter (refers_to a) (entries st))"

text \<open>
  Where a program starts: \<open>n\<close> connections as \<^verbatim>\<open>Connection() : ref_count(0)\<close> leaves them,
  and no entry yet.
\<close>

definition fresh_store :: "nat \<Rightarrow> store" where
  "fresh_store n = \<lparr>conns = replicate n \<lparr>ref_count = 0\<rparr>, entries = []\<rparr>"

subsection \<open>Concrete environments\<close>

text \<open>
  A configuration with the four keys of the section \<^verbatim>\<open>mysql\<close>, and an environment that
  follows four scripts (the outcomes of the first calls of \<^verbatim>\<open>connect\<close>, \<^verbatim>\<open>ping\<close>,
  \<^verbatim>\<open>execute\<close> and \<^verbatim>\<open>isCancelled\<close>) and is healthy once a script has ended.
\<close>

definition demo_cfg :: "string \<Rightarrow> string option" where
  "demo_cfg = map_of [(''mysql.db'', ''test''), (''mysql.host'', ''localhost''),
     (''mysql.port'', ''3306''), (''mysql.user'', ''root'')]"

definition scripted ::
  "int option list \<Rightarrow> bool list \<Rightarrow> string option list \<Rightarrow> bool list \<Rightarrow> env" where
  "scripted cs ps xs ks =
     \<lparr>cfg = demo_cfg,
      connect_result = (\<lambda>k. if k < length cs then cs ! k else None),
      ping_result = (\<lambda>k. if k < length ps then ps ! k else True),
      execute_result = (\<lambda>k. if k < length xs then xs ! k else None),
      cancelled_result = (\<lambda>k. if k < length ks then ks ! k else False)\<rparr>"

definition world0 :: world where
  "world0 = \<lparr>connects = 0, pings = 0, executes = 0, cancel_checks = 0, trace = []\<rparr>"

subsection \<open>Invariants of a store of entries\<close>

text \<open>
  Used in the proofs only: every count is the number of live entries on its connection,
  no count is above \<^verbatim>\<open>INT_MAX\<close>, and every live entry points to a connection of the list
  or to none.
\<close>

definition counted :: "store \<Rightarrow> bool" where
  "counted st = (\<forall>a<length (conns st). ref_count (conns st ! a) = int (handles_on st a))"

definition in_range :: "store \<Rightarrow> bool" where
  "in_range st = (\<forall>a<length (conns st). ref_count (conns st ! a) \<le> INT_MAX)"

definition well_pointed :: "store \<Rightarrow> bool" where
  "well_pointed st =
     (\<forall>h e a. lookup_entry (entries st) h = Some e \<longrightarrow> data e = Some a
        \<longrightarrow> a < length (conns st))"

definition sound :: "store \<Rightarrow> bool" where
  "sound st = (counted st \<and> in_range st \<and> well_pointed st)"

subsection \<open>Names for the conditions of AllocConnection\<close>

text \<open>
  The three codes that \<^verbatim>\<open>AllocConnection\<close> raises again whatever the state, and the message of
  the exception it throws when the daemon is cancelled.
\<close>

definition fatal_errnum :: "int \<Rightarrow> bool" where
  "fatal_errnum errnum =
     (errnum = ER_ACCESS_DENIED_ERROR \<or> errnum = ER_DBACCESS_DENIED_ERROR
      \<or> errnum = ER_BAD_DB_ERROR)"

definition cancelled_message :: string where
  "cancelled_message = ''Daemon is cancelled while trying to connect to MySQL server.''"

text \<open>
  A pool in use: initialised, with a statement-free configuration, after a successful
  connect, holding the connections \<open>cs\<close>.
\<close>

definition warm_pool :: "32 word \<Rightarrow> Connection list \<Rightarrow> Pool" where
  "warm_pool maxc cs =
     \<lparr>DefaultConnections = 1, MaxConnections = maxc, InitConnect = [], Initialized = True,
      Connections = cs, config_name = ''mysql'',
      description = ''test@localhost:3306 as user root'', was_successful = True\<rparr>"

text \<open>
  The exceptions that can leave \<^verbatim>\<open>AllocConnection\<close>, with the pool \<open>p'\<close> it leaves: a
  \<^verbatim>\<open>ConnectionFailed\<close> that is fatal or comes from a pool that has never connected, the
  cancellation, or a failure of the statement \<^verbatim>\<open>InitConnect\<close>.
\<close>

definition connect_exception :: "exn \<Rightarrow> Pool \<Rightarrow> bool" where
  "connect_exception x p' =
     ((\<exists>errnum. x = ConnectionFailed errnum \<and> (fatal_errnum errnum \<or> \<not> was_successful p'))
      \<or> x = PocoException cancelled_message
      \<or> (\<exists>msg. x = ExecuteFailed msg))"

section \<open>Properties\<close>

lemmas env_defs = conn_connect_def conn_ping_def query_execute_def isCancelled_def emit_def

lemmas demo_defs = scripted_def demo_cfg_def world0_def Pool_ctor_def
  ER_ACCESS_DENIED_ERROR_def ER_DBACCESS_DENIED_ERROR_def ER_BAD_DB_ERROR_def

lemmas pool_defs = Get_def tryGet_def Initialize_def compose_description_def getString_def
  getString_default_def AllocConnection_def afterConnect_def backoff_def tryForceConnected_def
  Entry_ctor_def Entry_copy_def Entry_dtor_def Entry_default_def inc_ref_def dec_ref_def
  MYSQLXX_POOL_SLEEP_ON_CONNECT_FAIL_def

text \<open>Unfolding the loops at a numeral, for evaluation.\<close>

lemma alloc_default_numeral:
  "alloc_default (numeral k) d p w =
     (case AllocConnection d False p w of
        (Inl e, p', w') \<Rightarrow> (Inl e, p', w')
      | (Inr c, p', w') \<Rightarrow> alloc_default (pred_numeral k) d p' w')"
  by (simp add: numeral_eq_Suc)

lemma Get_loop_numeral:
  "Get_loop (numeral k) d this p w = Get_loop (Suc (pred_numeral k)) d this p w"
  by (simp add: numeral_eq_Suc)

lemma reconnect_loop_numeral:
  "reconnect_loop (numeral k) d a first w = reconnect_loop (Suc (pred_numeral k)) d a first w"
  by (simp add: numeral_eq_Suc)

lemmas fuel_simps = alloc_default_numeral Get_loop_numeral reconnect_loop_numeral

subsection \<open>How AllocConnection classifies a failed connect\<close>

text \<open>
  Claim C3. When \<^verbatim>\<open>connect\<close> raises \<^verbatim>\<open>ConnectionFailed\<close> with the code \<open>errnum\<close>,
  \<^verbatim>\<open>AllocConnection\<close> decides in this order: one of the three fatal codes is raised again,
  whatever the rest of the state; otherwise the exception is raised again when the pool has
  never connected and the flag \<^verbatim>\<open>dont_throw_if_failed_first_time\<close> is off; otherwise, when
  the daemon is cancelled, the exception "Daemon is cancelled ..." is raised; otherwise the
  result is \<^verbatim>\<open>NULL\<close> and nothing is raised. The pool is left as it was in all four cases.
\<close>

theorem AllocConnection_failure_classification:
  assumes "connect_result d (connects w) = Some errnum"
  shows "AllocConnection d dont_throw p w =
     (let w1 = snd (conn_connect d (length (Connections p)) w) in
      if errnum = ER_ACCESS_DENIED_ERROR \<or> errnum = ER_DBACCESS_DENIED_ERROR
           \<or> errnum = ER_BAD_DB_ERROR
      then (Inl (ConnectionFailed errnum), p, w1)
      else if \<not> was_successful p \<and> \<not> dont_throw
      then (Inl (ConnectionFailed errnum), p, w1)
      else if cancelled_result d (cancel_checks w)
      then (Inl (PocoException ''Daemon is cancelled while trying to connect to MySQL server.''),
            p, snd (isCancelled d w1))
      else (Inr None, p, snd (isCancelled d w1)))"
  using assms
  by (simp add: AllocConnection_def conn_connect_def isCancelled_def emit_def Let_def)

theorem AllocConnection_failure_classification_witness:
  "connect_result (scripted [Some 1045] [] [] []) (connects world0) = Some 1045
   \<and> AllocConnection (scripted [Some 1045] [] [] []) True (Pool_ctor ''mysql'' 1 16 []) world0
     = (Inl (ConnectionFailed 1045), Pool_ctor ''mysql'' 1 16 [],
        world0\<lparr>connects := 1, trace := [Connect 0]\<rparr>)
   \<and> connect_result (scripted [Some 2003] [] [] []) (connects world0) = Some 2003
   \<and> AllocConnection (scripted [Some 2003] [] [] []) False (Pool_ctor ''mysql'' 1 16 []) world0
     = (Inl (ConnectionFailed 2003), Pool_ctor ''mysql'' 1 16 [],
        world0\<lparr>connects := 1, trace := [Connect 0]\<rparr>)
   \<and> AllocConnection (scripted [Some 2003] [] [] [True]) True (Pool_ctor ''mysql'' 1 16 []) world0
     = (Inl (PocoException ''Daemon is cancelled while trying to connect to MySQL server.''),
        Pool_ctor ''mysql'' 1 16 [],
        world0\<lparr>connects := 1, cancel_checks := 1, trace := [Connect 0, IsCancelled]\<rparr>)
   \<and> AllocConnection (scripted [Some 2003] [] [] []) True (Pool_ctor ''mysql'' 1 16 []) world0
     = (Inr None, Pool_ctor ''mysql'' 1 16 [],
        world0\<lparr>connects := 1, cancel_checks := 1, trace := [Connect 0, IsCancelled]\<rparr>)"
  using AllocConnection_failure_classification
          [of "scripted [Some 1045] [] [] []" world0 1045 True "Pool_ctor ''mysql'' 1 16 []"]
        AllocConnection_failure_classification
          [of "scripted [Some 2003] [] [] []" world0 2003 False "Pool_ctor ''mysql'' 1 16 []"]
        AllocConnection_failure_classification
          [of "scripted [Some 2003] [] [] [True]" world0 2003 True "Pool_ctor ''mysql'' 1 16 []"]
        AllocConnection_failure_classification
          [of "scripted [Some 2003] [] [] []" world0 2003 True "Pool_ctor ''mysql'' 1 16 []"]
  by (simp add: env_defs demo_defs)

subsection \<open>Reference counts\<close>

lemma length_inc_ref [simp]: "length (inc_ref a cs) = length cs"
  by (simp add: inc_ref_def)

lemma length_dec_ref [simp]: "length (dec_ref a cs) = length cs"
  by (simp add: dec_ref_def)

lemma ref_count_inc_ref:
  "b < length cs \<Longrightarrow>
   ref_count (inc_ref a cs ! b) = ref_count (cs ! b) + (if a = b then 1 else 0)"
  by (simp add: inc_ref_def nth_list_update)

lemma ref_count_dec_ref:
  "b < length cs \<Longrightarrow>
   ref_count (dec_ref a cs ! b) = ref_count (cs ! b) - (if a = b then 1 else 0)"
  by (simp add: dec_ref_def nth_list_update)

lemma filter_length_update:
  "h < length es \<Longrightarrow>
   length (filter P (es[h := x])) + (if P (es ! h) then 1 else 0)
     = length (filter P es) + (if P x then 1 else 0)"
proof (induction es arbitrary: h)
  case Nil
  then show ?case by simp
next
  case (Cons e es)
  show ?case
  proof (cases h)
    case 0
    then show ?thesis by simp
  next
    case (Suc k)
    with Cons.prems have "k < length es" by simp
    from Cons.IH [OF this] Suc show ?thesis by simp
  qed
qed

lemma handles_on_update:
  assumes "lookup_entry (entries st) h = Some t" and "entries st' = (entries st)[h := x]"
  shows "int (handles_on st' a)
     = int (handles_on st a) - (if data t = Some a then 1 else 0)
       + (if refers_to a x then 1 else 0)"
proof -
  from assms(1) have h: "h < length (entries st)" and t: "entries st ! h = Some t"
    by (auto simp: lookup_entry_def split: if_splits)
  from filter_length_update [OF h, of "refers_to a" x] t assms(2) show ?thesis
    by (simp add: handles_on_def refers_to_def split: if_splits)
qed

lemma apply_op_counted:
  assumes "counted st" and "apply_op x st = Some st'"
  shows "counted st'"
proof (cases x)
  case Op_default
  with assms show ?thesis
    by (auto simp: counted_def handles_on_def refers_to_def Entry_default_def)
next
  case (Op_ctor conn p)
  with assms show ?thesis
    by (auto simp: counted_def Entry_ctor_def can_inc_def handles_on_def refers_to_def
          ref_count_inc_ref split: if_splits option.splits)
next
  case (Op_copy src)
  with assms show ?thesis
    by (auto simp: counted_def Entry_copy_def can_inc_def handles_on_def refers_to_def
          ref_count_inc_ref split: if_splits option.splits)
next
  case (Op_assign dst src)
  from assms Op_assign obtain t s where
    t: "lookup_entry (entries st) dst = Some t" and s: "lookup_entry (entries st) src = Some s"
    and dec: "can_dec (data t) (conns st)" and inc: "can_inc (data s) (Entry_dtor t (conns st))"
    and st': "st' = \<lparr>conns = snd (Entry_assign t s (conns st)),
                     entries = (entries st)[dst := Some (fst (Entry_assign t s (conns st)))]\<rparr>"
    by (auto split: option.splits if_splits prod.splits)
  have len: "length (conns st') = length (conns st)"
    by (simp add: st' Entry_assign_def Let_def split: option.splits)
  show ?thesis
    unfolding counted_def
  proof (intro allI impI)
    fix a assume "a < length (conns st')"
    with len have a: "a < length (conns st)" by simp
    from assms(1) a have old: "ref_count (conns st ! a) = int (handles_on st a)"
      by (simp add: counted_def)
    have rc: "ref_count (conns st' ! a) = ref_count (conns st ! a)
        - (if data t = Some a then 1 else 0) + (if data s = Some a then 1 else 0)"
      using a by (simp add: st' Entry_assign_def Let_def ref_count_inc_ref ref_count_dec_ref
          split: option.splits)
    have "int (handles_on st' a) = int (handles_on st a)
        - (if data t = Some a then 1 else 0)
        + (if refers_to a (Some (fst (Entry_assign t s (conns st)))) then 1 else 0)"
      by (rule handles_on_update [OF t]) (simp add: st')
    then have "int (handles_on st' a) = int (handles_on st a)
        - (if data t = Some a then 1 else 0) + (if data s = Some a then 1 else 0)"
      by (simp add: refers_to_def Entry_assign_def Let_def)
    with rc old show "ref_count (conns st' ! a) = int (handles_on st' a)" by simp
  qed
next
  case (Op_dtor h)
  from assms Op_dtor obtain e where
    e: "lookup_entry (entries st) h = Some e" and dec: "can_dec (data e) (conns st)"
    and st': "st' = \<lparr>conns = Entry_dtor e (conns st), entries = (entries st)[h := None]\<rparr>"
    by (auto split: option.splits if_splits)
  have len: "length (conns st') = length (conns st)"
    by (simp add: st' Entry_dtor_def split: option.splits)
  show ?thesis
    unfolding counted_def
  proof (intro allI impI)
    fix a assume "a < length (conns st')"
    with len have a: "a < length (conns st)" by simp
    from assms(1) a have old: "ref_count (conns st ! a) = int (handles_on st a)"
      by (simp add: counted_def)
    have rc: "ref_count (conns st' ! a) = ref_count (conns st ! a)
        - (if data e = Some a then 1 else 0)"
      using a by (simp add: st' Entry_dtor_def ref_count_dec_ref split: option.splits)
    have "int (handles_on st' a) = int (handles_on st a)
        - (if data e = Some a then 1 else 0) + (if refers_to a None then 1 else 0)"
      by (rule handles_on_update [OF e]) (simp add: st')
    then have "int (handles_on st' a) = int (handles_on st a)
        - (if data e = Some a then 1 else 0)"
      by (simp add: refers_to_def)
    with rc old show "ref_count (conns st' ! a) = int (handles_on st' a)" by simp
  qed
qed

lemma lookup_entry_append:
  "lookup_entry (es @ [x]) h = (if h = length es then x else lookup_entry es h)"
  by (simp add: lookup_entry_def nth_append)

lemma lookup_entry_update:
  "lookup_entry (es[h := x]) k = (if k = h \<and> h < length es then x else lookup_entry es k)"
  by (simp add: lookup_entry_def nth_list_update)

lemma apply_op_length:
  "apply_op x st = Some st' \<Longrightarrow> length (conns st') = length (conns st)"
  by (cases x)
     (auto simp: Entry_ctor_def Entry_copy_def Entry_assign_def Entry_dtor_def Let_def
        split: option.splits if_splits)

lemma apply_op_in_range:
  assumes "in_range st" and "apply_op x st = Some st'"
  shows "in_range st'"
proof (cases x)
  case Op_default
  with assms show ?thesis by (auto simp: in_range_def)
next
  case (Op_ctor conn p)
  with assms show ?thesis
    by (auto simp: in_range_def Entry_ctor_def can_inc_def ref_count_inc_ref
          split: if_splits option.splits)
next
  case (Op_copy src)
  with assms show ?thesis
    by (auto simp: in_range_def Entry_copy_def can_inc_def ref_count_inc_ref
          split: if_splits option.splits)
next
  case (Op_assign dst src)
  from assms Op_assign obtain t s where
    inc: "can_inc (data s) (Entry_dtor t (conns st))"
    and st': "conns st' = snd (Entry_assign t s (conns st))"
    by (auto split: option.splits if_splits prod.splits)
  show ?thesis
    unfolding in_range_def
  proof (intro allI impI)
    fix a assume "a < length (conns st')"
    then have a: "a < length (conns st)"
      by (simp add: st' Entry_assign_def Let_def split: option.splits)
    with assms(1) have old: "ref_count (conns st ! a) \<le> INT_MAX"
      by (simp add: in_range_def)
    show "ref_count (conns st' ! a) \<le> INT_MAX"
    proof (cases "data s = Some a")
      case True
      with inc a have "ref_count (Entry_dtor t (conns st) ! a) < INT_MAX"
        by (simp add: can_inc_def)
      moreover have "length (Entry_dtor t (conns st)) = length (conns st)"
        by (simp add: Entry_dtor_def split: option.splits)
      ultimately show ?thesis
        using True a
        by (simp add: st' Entry_assign_def Let_def ref_count_inc_ref
              Entry_dtor_def [symmetric])
    next
      case False
      with old a show ?thesis
        by (auto simp: st' Entry_assign_def Let_def ref_count_inc_ref ref_count_dec_ref
            split: option.splits)
    qed
  qed
next
  case (Op_dtor h)
  with assms show ?thesis
    by (auto simp: in_range_def Entry_dtor_def can_dec_def ref_count_dec_ref
          split: if_splits option.splits)
qed

lemma apply_op_well_pointed:
  assumes "well_pointed st" and "apply_op x st = Some st'"
  shows "well_pointed st'"
proof (cases x)
  case Op_default
  with assms show ?thesis
    by (auto simp: well_pointed_def lookup_entry_append Entry_default_def split: if_splits)
next
  case (Op_ctor conn p)
  with assms show ?thesis
    by (auto simp: well_pointed_def lookup_entry_append Entry_ctor_def can_inc_def
          split: if_splits option.splits)
next
  case (Op_copy src)
  with assms show ?thesis
    by (auto simp: well_pointed_def lookup_entry_append Entry_copy_def can_inc_def
          split: if_splits option.splits)
next
  case (Op_assign dst src)
  with assms show ?thesis
    by (auto simp: well_pointed_def lookup_entry_update Entry_assign_def Entry_dtor_def Let_def
          can_inc_def split: if_splits option.splits)
next
  case (Op_dtor h)
  with assms show ?thesis
    by (auto simp: well_pointed_def lookup_entry_update Entry_dtor_def
          split: if_splits option.splits)
qed

lemma run_ops_sound:
  "sound st \<Longrightarrow> run_ops ops st = Some st' \<Longrightarrow> sound st'"
proof (induction ops arbitrary: st)
  case Nil
  then show ?case by simp
next
  case (Cons x xs)
  from Cons.prems(2) obtain st1 where
    step: "apply_op x st = Some st1" and rest: "run_ops xs st1 = Some st'"
    by (auto split: option.splits)
  from Cons.prems(1) step have "sound st1"
    by (auto simp: sound_def intro: apply_op_counted apply_op_in_range apply_op_well_pointed)
  from Cons.IH [OF this rest] show ?case .
qed

lemma sound_fresh_store: "sound (fresh_store n)"
  by (simp add: sound_def counted_def in_range_def well_pointed_def fresh_store_def
        handles_on_def lookup_entry_def INT_MAX_def)

lemma handles_on_pos:
  assumes "lookup_entry (entries st) h = Some e" and "data e = Some a"
  shows "0 < handles_on st a"
proof -
  from assms have "Some e \<in> set (entries st)" and "refers_to a (Some e)"
    by (auto simp: lookup_entry_def refers_to_def in_set_conv_nth split: if_splits)
  then have "filter (refers_to a) (entries st) \<noteq> []"
    by (auto simp: filter_empty_conv)
  then show ?thesis by (simp add: handles_on_def)
qed

lemma inc_ref_dec_ref: "a < length cs \<Longrightarrow> inc_ref a (dec_ref a cs) = cs"
  by (simp add: inc_ref_def dec_ref_def list_update_same_conv)

lemma Entry_self_assign:
  assumes "sound st" and "lookup_entry (entries st) h = Some e"
  shows "apply_op (Op_assign h h) st = Some st"
proof (cases "data e")
  case None
  with assms(2) have "(entries st)[h := Some \<lparr>data = None, pool = pool e\<rparr>] = entries st"
    by (auto simp: lookup_entry_def list_update_same_conv split: if_splits)
  with assms(2) None show ?thesis
    by (simp add: can_dec_def can_inc_def Entry_dtor_def Entry_assign_def)
next
  case (Some a)
  from assms Some have a: "a < length (conns st)"
    by (auto simp: sound_def well_pointed_def)
  from assms(1) a have "ref_count (conns st ! a) = int (handles_on st a)"
    and hi: "ref_count (conns st ! a) \<le> INT_MAX"
    by (auto simp: sound_def counted_def in_range_def)
  with handles_on_pos [OF assms(2) Some] have lo: "0 < ref_count (conns st ! a)" by simp
  have e: "(entries st)[h := Some \<lparr>data = Some a, pool = pool e\<rparr>] = entries st"
    using assms(2) Some by (auto simp: lookup_entry_def list_update_same_conv split: if_splits)
  from a lo hi have "can_dec (data e) (conns st)"
    and "can_inc (data e) (Entry_dtor e (conns st))"
    by (auto simp: Some can_dec_def can_inc_def Entry_dtor_def ref_count_dec_ref INT_MIN_def)
  with assms(2) Some a e show ?thesis
    by (simp add: Entry_assign_def inc_ref_dec_ref)
qed

text \<open>
  Claim C2. After any sequence of constructions, copies, assignments and destructions of
  entries that C++ defines, run from connections nobody holds, the \<^verbatim>\<open>ref_count\<close> of every
  connection is the number of live entries whose \<^verbatim>\<open>data\<close> points to it, and it is zero
  exactly when no live entry points to it. The sequence is arbitrary, so it holds under every
  ordering; and assigning a live entry to itself is defined and changes nothing.
\<close>

theorem refcount_conservation:
  assumes "run_ops ops (fresh_store n) = Some st"
  shows "(\<forall>a<length (conns st).
            ref_count (conns st ! a) = int (handles_on st a)
          \<and> (ref_count (conns st ! a) = 0) = (\<forall>x\<in>set (entries st). \<not> refers_to a x))
     \<and> (\<forall>h e. lookup_entry (entries st) h = Some e \<longrightarrow> apply_op (Op_assign h h) st = Some st)"
proof -
  have inv: "sound st"
    using sound_fresh_store assms by (rule run_ops_sound)
  have zero: "(handles_on st a = 0) = (\<forall>x\<in>set (entries st). \<not> refers_to a x)" for a
    by (simp add: handles_on_def filter_empty_conv)
  from inv have "\<forall>a<length (conns st). ref_count (conns st ! a) = int (handles_on st a)"
    by (simp add: sound_def counted_def)
  with zero have "\<forall>a<length (conns st).
            ref_count (conns st ! a) = int (handles_on st a)
          \<and> (ref_count (conns st ! a) = 0) = (\<forall>x\<in>set (entries st). \<not> refers_to a x)"
    by simp
  moreover have "\<forall>h e. lookup_entry (entries st) h = Some e
      \<longrightarrow> apply_op (Op_assign h h) st = Some st"
    using inv by (blast intro: Entry_self_assign)
  ultimately show ?thesis by blast
qed

theorem refcount_conservation_witness:
  "run_ops [Op_ctor (Some 0) (Some 7), Op_copy 0, Op_default, Op_assign 2 1, Op_assign 1 1,
            Op_dtor 0] (fresh_store 2)
     = Some \<lparr>conns = [\<lparr>ref_count = 2\<rparr>, \<lparr>ref_count = 0\<rparr>],
              entries = [None, Some \<lparr>data = Some 0, pool = Some 7\<rparr>,
                         Some \<lparr>data = Some 0, pool = Some 7\<rparr>]\<rparr>
   \<and> handles_on \<lparr>conns = [\<lparr>ref_count = 2\<rparr>, \<lparr>ref_count = 0\<rparr>],
                  entries = [None, Some \<lparr>data = Some 0, pool = Some 7\<rparr>,
                             Some \<lparr>data = Some 0, pool = Some 7\<rparr>]\<rparr> 0 = 2
   \<and> apply_op (Op_assign 1 1)
        \<lparr>conns = [\<lparr>ref_count = 2\<rparr>, \<lparr>ref_count = 0\<rparr>],
         entries = [None, Some \<lparr>data = Some 0, pool = Some 7\<rparr>,
                    Some \<lparr>data = Some 0, pool = Some 7\<rparr>]\<rparr>
     = Some \<lparr>conns = [\<lparr>ref_count = 2\<rparr>, \<lparr>ref_count = 0\<rparr>],
              entries = [None, Some \<lparr>data = Some 0, pool = Some 7\<rparr>,
                         Some \<lparr>data = Some 0, pool = Some 7\<rparr>]\<rparr>"
proof -
  let ?st = "\<lparr>conns = [\<lparr>ref_count = 2\<rparr>, \<lparr>ref_count = 0\<rparr>],
              entries = [None, Some \<lparr>data = Some 0, pool = Some 7\<rparr>,
                         Some \<lparr>data = Some 0, pool = Some 7\<rparr>]\<rparr>"
  have run: "run_ops [Op_ctor (Some 0) (Some 7), Op_copy 0, Op_default, Op_assign 2 1,
                      Op_assign 1 1, Op_dtor 0] (fresh_store 2) = Some ?st"
    by (simp add: fresh_store_def can_inc_def can_dec_def lookup_entry_def Entry_ctor_def
          Entry_copy_def Entry_assign_def Entry_dtor_def Entry_default_def inc_ref_def
          dec_ref_def INT_MAX_def INT_MIN_def numeral_2_eq_2)
  note th = refcount_conservation [OF run]
  from th have "0 < length (conns ?st) \<longrightarrow> ref_count (conns ?st ! 0) = int (handles_on ?st 0)"
    by blast
  then have count: "handles_on ?st 0 = 2"
    by simp
  from th have "lookup_entry (entries ?st) 1 = Some \<lparr>data = Some 0, pool = Some 7\<rparr>
      \<longrightarrow> apply_op (Op_assign 1 1) ?st = Some ?st"
    by blast
  then have "apply_op (Op_assign 1 1) ?st = Some ?st"
    by (simp add: lookup_entry_def)
  with run count show ?thesis by simp
qed

subsection \<open>The bound MaxConnections\<close>

text \<open>
  Claim C1 says that the list never holds more connections than \<^verbatim>\<open>MaxConnections\<close>, also
  when \<^verbatim>\<open>DefaultConnections\<close> is the larger. \<^verbatim>\<open>Get\<close> and \<^verbatim>\<open>tryGet\<close> compare the size of the
  list with \<^verbatim>\<open>MaxConnections\<close> before they call \<^verbatim>\<open>AllocConnection\<close>; the loop of \<^verbatim>\<open>Initialize\<close>
  does not. For a pool made with \<^verbatim>\<open>DefConn = 2\<close> and \<^verbatim>\<open>MaxConn = 1\<close> and a healthy server,
  the first \<^verbatim>\<open>Get\<close> leaves two connections in the list.
\<close>

theorem Get_exceeds_MaxConnections:
  "Get 1 (scripted [] [] [] []) 0 (Pool_ctor ''mysql'' 2 1 []) world0
     = Some (Inr \<lparr>data = Some 0, pool = Some 0\<rparr>,
             \<lparr>DefaultConnections = 2, MaxConnections = 1, InitConnect = [], Initialized = True,
              Connections = [\<lparr>ref_count = 1\<rparr>, \<lparr>ref_count = 0\<rparr>], config_name = ''mysql'',
              description = ''test@localhost:3306 as user root'', was_successful = True\<rparr>,
             \<lparr>connects = 2, pings = 0, executes = 0, cancel_checks = 0,
              trace = [Lock, Connect 0, Connect 1, Unlock]\<rparr>)"
  by (simp add: pool_defs env_defs demo_defs fuel_simps)

text \<open>
  The same happens with \<^verbatim>\<open>DefConn = MaxConn = 2\<close> when \<^verbatim>\<open>Initialize\<close> is left by an exception
  after its first connection and runs again in the next call: the second \<^verbatim>\<open>Get\<close> ends with
  three connections.
\<close>

lemma Get_again_exceeds_MaxConnections:
  "Get 1 (scripted [None, Some 1045] [] [] []) 0 (Pool_ctor ''mysql'' 2 2 []) world0
     = Some (Inl (ConnectionFailed 1045),
             \<lparr>DefaultConnections = 2, MaxConnections = 2, InitConnect = [], Initialized = False,
              Connections = [\<lparr>ref_count = 0\<rparr>], config_name = ''mysql'',
              description = ''test@localhost:3306 as user root'', was_successful = True\<rparr>,
             \<lparr>connects = 2, pings = 0, executes = 0, cancel_checks = 0,
              trace = [Lock, Connect 0, Connect 1, Unlock]\<rparr>)
   \<and> Get 1 (scripted [None, Some 1045] [] [] []) 0
        \<lparr>DefaultConnections = 2, MaxConnections = 2, InitConnect = [], Initialized = False,
         Connections = [\<lparr>ref_count = 0\<rparr>], config_name = ''mysql'',
         description = ''test@localhost:3306 as user root'', was_successful = True\<rparr>
        \<lparr>connects = 2, pings = 0, executes = 0, cancel_checks = 0,
         trace = [Lock, Connect 0, Connect 1, Unlock]\<rparr>
     = Some (Inr \<lparr>data = Some 0, pool = Some 0\<rparr>,
             \<lparr>DefaultConnections = 2, MaxConnections = 2, InitConnect = [], Initialized = True,
              Connections = [\<lparr>ref_count = 1\<rparr>, \<lparr>ref_count = 0\<rparr>, \<lparr>ref_count = 0\<rparr>],
              config_name = ''mysql'',
              description = ''test@localhost:3306 as user root'', was_successful = True\<rparr>,
             \<lparr>connects = 4, pings = 0, executes = 0, cancel_checks = 0,
              trace = [Lock, Connect 0, Connect 1, Unlock, Lock, Connect 1, Connect 2,
                       Unlock]\<rparr>)"
  by (simp add: pool_defs env_defs demo_defs fuel_simps)

subsection \<open>tryGet\<close>

lemma find_idle_None: "(find_idle cs i = None) = (\<forall>c\<in>set cs. ref_count c \<noteq> 0)"
  by (induction cs arbitrary: i) auto

lemma find_idle_Some:
  "find_idle cs i = Some j \<Longrightarrow> i \<le> j \<and> j - i < length cs \<and> ref_count (cs ! (j - i)) = 0"
proof (induction cs arbitrary: i)
  case Nil
  then show ?case by simp
next
  case (Cons c cs)
  show ?case
  proof (cases "ref_count c = 0")
    case True
    with Cons.prems show ?thesis by simp
  next
    case False
    with Cons.prems have "find_idle cs (Suc i) = Some j" by simp
    from Cons.IH [OF this] have "Suc i \<le> j" and "j - Suc i < length cs"
      and "ref_count (cs ! (j - Suc i)) = 0" by simp_all
    moreover from \<open>Suc i \<le> j\<close> have "j - i = Suc (j - Suc i)" by simp
    ultimately show ?thesis by simp
  qed
qed

lemma find_idle_0:
  "find_idle cs 0 = Some j \<Longrightarrow> j < length cs \<and> ref_count (cs ! j) = 0"
  using find_idle_Some [of cs 0 j] by simp

lemma dec_ref_inc_ref: "a < length cs \<Longrightarrow> dec_ref a (inc_ref a cs) = cs"
  by (simp add: inc_ref_def dec_ref_def list_update_same_conv)

text \<open>\<^verbatim>\<open>tryGet\<close> after \<^verbatim>\<open>Initialize\<close> has returned, by the ways its scan can end.\<close>

lemma tryGet_idle_dead:
  assumes init: "Initialize d p (emit Lock w) = (Inr (), p1, w1)"
    and idle: "find_idle (Connections p1) 0 = Some i"
    and dead: "\<not> ping_result d (pings w1)"
  shows "tryGet d this p w = (Inr Entry_default, p1, emit Unlock (snd (conn_ping d i w1)))"
proof -
  from find_idle_0 [OF idle] have "i < length (Connections p1)" by simp
  then have "dec_ref i (inc_ref i (Connections p1)) = Connections p1"
    by (rule dec_ref_inc_ref)
  with init idle dead show ?thesis
    by (simp add: tryGet_def tryForceConnected_def conn_ping_def Entry_ctor_def Entry_dtor_def)
qed

lemma tryGet_idle_alive:
  assumes init: "Initialize d p (emit Lock w) = (Inr (), p1, w1)"
    and idle: "find_idle (Connections p1) 0 = Some i"
    and alive: "ping_result d (pings w1)"
  shows "tryGet d this p w =
     (Inr \<lparr>data = Some i, pool = Some this\<rparr>, p1\<lparr>Connections := inc_ref i (Connections p1)\<rparr>,
      emit Unlock (snd (conn_ping d i w1)))"
proof -
  from find_idle_0 [OF idle] have "i < length (inc_ref i (Connections p1))"
    by (simp add: inc_ref_def)
  then have "dec_ref i (inc_ref i (inc_ref i (Connections p1))) = inc_ref i (Connections p1)"
    by (rule dec_ref_inc_ref)
  with init idle alive show ?thesis
    by (simp add: tryGet_def tryForceConnected_def conn_ping_def Entry_ctor_def Entry_dtor_def
          Entry_copy_def)
qed

lemma tryGet_full:
  assumes init: "Initialize d p (emit Lock w) = (Inr (), p1, w1)"
    and busy: "find_idle (Connections p1) 0 = None"
    and full: "unat (MaxConnections p1) \<le> length (Connections p1)"
  shows "tryGet d this p w = (Inl (PocoException ''mysqlxx::Pool is full''), p1, emit Unlock w1)"
  using assms by (simp add: tryGet_def)

lemma tryGet_grow:
  assumes init: "Initialize d p (emit Lock w) = (Inr (), p1, w1)"
    and busy: "find_idle (Connections p1) 0 = None"
    and room: "length (Connections p1) < unat (MaxConnections p1)"
  shows "tryGet d this p w =
     (case AllocConnection d True p1 w1 of
        (Inl x, p2, w2) \<Rightarrow> (Inl x, p2, emit Unlock w2)
      | (Inr (Some conn), p2, w2) \<Rightarrow>
          (Inr \<lparr>data = Some conn, pool = Some this\<rparr>,
           p2\<lparr>Connections := inc_ref conn (Connections p2)\<rparr>, emit Unlock w2)
      | (Inr None, p2, w2) \<Rightarrow> (Inr Entry_default, p2, emit Unlock w2))"
  using assms by (simp add: tryGet_def Entry_ctor_def split: prod.splits sum.splits option.splits)

lemma Initialize_done: "Initialized p \<Longrightarrow> Initialize d p w = (Inr (), p, w)"
  by (simp add: Initialize_def)

text \<open>\<^verbatim>\<open>AllocConnection\<close> by the outcome of \<^verbatim>\<open>connect\<close>.\<close>

lemma AllocConnection_connected:
  assumes "connect_result d (connects w) = None"
    and "InitConnect p = [] \<or> execute_result d (executes w) = None"
  shows "AllocConnection d b p w =
     (Inr (Some (length (Connections p))),
      p\<lparr>was_successful := True, Connections := Connections p @ [\<lparr>ref_count = 0\<rparr>]\<rparr>,
      snd (afterConnect d p (length (Connections p)) (snd (conn_connect d (length (Connections p)) w))))"
  using assms
  by (auto simp: AllocConnection_def afterConnect_def env_defs Let_def)

lemma AllocConnection_transient:
  assumes "connect_result d (connects w) = Some errnum" and "\<not> fatal_errnum errnum"
    and "was_successful p \<or> b" and "\<not> cancelled_result d (cancel_checks w)"
  shows "AllocConnection d b p w =
     (Inr None, p, snd (isCancelled d (snd (conn_connect d (length (Connections p)) w))))"
  using assms
  by (auto simp: AllocConnection_def fatal_errnum_def env_defs Let_def)

lemma Initialize_Inr_Initialized:
  "Initialize d p w = (Inr u, p1, w1) \<Longrightarrow> Initialized p1"
  by (auto simp: Initialize_def split: if_splits sum.splits prod.splits)

lemma Get_loop_idle:
  assumes "find_idle (Connections p) 0 = Some i"
  shows "Get_loop (Suc fuel) d this p w =
     Some (Inr \<lparr>data = Some i, pool = Some this\<rparr>, p\<lparr>Connections := inc_ref i (Connections p)\<rparr>, w)"
  using assms by (simp add: Entry_ctor_def)

text \<open>
  Claim C4 says that \<^verbatim>\<open>tryGet\<close>, when no connection is idle and the list is below
  \<^verbatim>\<open>MaxConnections\<close>, allocates with the flag \<^verbatim>\<open>dont_throw_if_failed_first_time\<close> set and
  returns the empty entry on a failure that is not fatal; the comment of \<^verbatim>\<open>tryGet\<close> says the
  same (an empty entry when the database is not available, an exception when the pool is
  full). The first \<^verbatim>\<open>tryGet\<close> on a new pool does not: it runs \<^verbatim>\<open>Initialize\<close>, whose loop
  calls \<^verbatim>\<open>AllocConnection()\<close> with the flag off. For a pool made with \<^verbatim>\<open>DefConn = 1\<close> and
  \<^verbatim>\<open>MaxConn = 16\<close>, no connection in the list, a \<^verbatim>\<open>connect\<close> that fails with the code 2003
  (not fatal) and a daemon that is not cancelled, \<^verbatim>\<open>tryGet\<close> throws the \<^verbatim>\<open>ConnectionFailed\<close>.
\<close>

theorem tryGet_first_call_throws:
  "find_idle (Connections (Pool_ctor ''mysql'' 1 16 [])) 0 = None
   \<and> length (Connections (Pool_ctor ''mysql'' 1 16 []))
       < unat (MaxConnections (Pool_ctor ''mysql'' 1 16 []))
   \<and> connect_result (scripted [Some 2003] [] [] []) (connects world0) = Some 2003
   \<and> \<not> fatal_errnum 2003
   \<and> \<not> cancelled_result (scripted [Some 2003] [] [] []) (cancel_checks world0)
   \<and> tryGet (scripted [Some 2003] [] [] []) 0 (Pool_ctor ''mysql'' 1 16 []) world0
     = (Inl (ConnectionFailed 2003),
        \<lparr>DefaultConnections = 1, MaxConnections = 16, InitConnect = [], Initialized = False,
         Connections = [], config_name = ''mysql'',
         description = ''test@localhost:3306 as user root'', was_successful = False\<rparr>,
        \<lparr>connects = 1, pings = 0, executes = 0, cancel_checks = 0,
         trace = [Lock, Connect 0, Unlock]\<rparr>)"
  by (simp add: pool_defs env_defs demo_defs fatal_errnum_def)

text \<open>
  Where \<^verbatim>\<open>Initialize\<close> returns, as it does on every initialised pool, \<^verbatim>\<open>tryGet\<close> does what
  its comment says, on the pool \<open>p1\<close> that \<^verbatim>\<open>Initialize\<close> leaves. If no connection has
  \<^verbatim>\<open>ref_count\<close> 0 and the list has reached \<^verbatim>\<open>MaxConnections\<close>, \<^verbatim>\<open>tryGet\<close> throws
  "mysqlxx::Pool is full". If the scan finds an idle connection whose \<^verbatim>\<open>ping\<close> fails,
  \<^verbatim>\<open>tryGet\<close> returns the empty entry, throws nothing, and has made one \<^verbatim>\<open>ping\<close> and no
  \<^verbatim>\<open>connect\<close>. If no connection is idle and the list is below \<^verbatim>\<open>MaxConnections\<close>, \<^verbatim>\<open>tryGet\<close>
  is \<^verbatim>\<open>AllocConnection(true)\<close>: an entry on the new connection when \<^verbatim>\<open>connect\<close> (and the
  initial statement) succeed, the empty entry when \<^verbatim>\<open>connect\<close> fails with a code that is not
  fatal and the daemon is not cancelled, also when the pool has never connected before.
\<close>

theorem tryGet_failure_modes:
  assumes init: "Initialize d p (emit Lock w) = (Inr (), p1, w1)"
  shows "(find_idle (Connections p1) 0 = None \<and> unat (MaxConnections p1) \<le> length (Connections p1)
          \<longrightarrow> tryGet d this p w
               = (Inl (PocoException ''mysqlxx::Pool is full''), p1, emit Unlock w1))
       \<and> (\<forall>i. find_idle (Connections p1) 0 = Some i \<and> \<not> ping_result d (pings w1)
          \<longrightarrow> tryGet d this p w
               = (Inr Entry_default, p1,
                  w1\<lparr>pings := pings w1 + 1, trace := trace w1 @ [Ping i, Unlock]\<rparr>))
       \<and> (find_idle (Connections p1) 0 = None \<and> length (Connections p1) < unat (MaxConnections p1)
          \<longrightarrow> tryGet d this p w
               = (case AllocConnection d True p1 w1 of
                    (Inl x, p2, w2) \<Rightarrow> (Inl x, p2, emit Unlock w2)
                  | (Inr (Some conn), p2, w2) \<Rightarrow>
                      (Inr \<lparr>data = Some conn, pool = Some this\<rparr>,
                       p2\<lparr>Connections := inc_ref conn (Connections p2)\<rparr>, emit Unlock w2)
                  | (Inr None, p2, w2) \<Rightarrow> (Inr Entry_default, p2, emit Unlock w2))
            \<and> (connect_result d (connects w1) = None
                 \<and> (InitConnect p1 = [] \<or> execute_result d (executes w1) = None)
               \<longrightarrow> fst (tryGet d this p w)
                    = Inr \<lparr>data = Some (length (Connections p1)), pool = Some this\<rparr>
                 \<and> Connections (fst (snd (tryGet d this p w)))
                    = Connections p1 @ [\<lparr>ref_count = 1\<rparr>])
            \<and> (\<forall>errnum. connect_result d (connects w1) = Some errnum \<and> \<not> fatal_errnum errnum
                 \<and> \<not> cancelled_result d (cancel_checks w1)
               \<longrightarrow> fst (tryGet d this p w) = Inr Entry_default
                 \<and> fst (snd (tryGet d this p w)) = p1))"
proof (intro conjI impI allI)
  assume "find_idle (Connections p1) 0 = None \<and> unat (MaxConnections p1) \<le> length (Connections p1)"
  with init show "tryGet d this p w
      = (Inl (PocoException ''mysqlxx::Pool is full''), p1, emit Unlock w1)"
    by (simp add: tryGet_full)
next
  fix i
  assume "find_idle (Connections p1) 0 = Some i \<and> \<not> ping_result d (pings w1)"
  with init show "tryGet d this p w
      = (Inr Entry_default, p1, w1\<lparr>pings := pings w1 + 1, trace := trace w1 @ [Ping i, Unlock]\<rparr>)"
    by (simp add: tryGet_idle_dead env_defs)
next
  assume a: "find_idle (Connections p1) 0 = None \<and> length (Connections p1) < unat (MaxConnections p1)"
  with init show "tryGet d this p w
      = (case AllocConnection d True p1 w1 of
           (Inl x, p2, w2) \<Rightarrow> (Inl x, p2, emit Unlock w2)
         | (Inr (Some conn), p2, w2) \<Rightarrow>
             (Inr \<lparr>data = Some conn, pool = Some this\<rparr>,
              p2\<lparr>Connections := inc_ref conn (Connections p2)\<rparr>, emit Unlock w2)
         | (Inr None, p2, w2) \<Rightarrow> (Inr Entry_default, p2, emit Unlock w2))"
    by (simp add: tryGet_grow)
next
  assume a: "find_idle (Connections p1) 0 = None \<and> length (Connections p1) < unat (MaxConnections p1)"
    and c: "connect_result d (connects w1) = None
       \<and> (InitConnect p1 = [] \<or> execute_result d (executes w1) = None)"
  from a have g: "tryGet d this p w
      = (case AllocConnection d True p1 w1 of
           (Inl x, p2, w2) \<Rightarrow> (Inl x, p2, emit Unlock w2)
         | (Inr (Some conn), p2, w2) \<Rightarrow>
             (Inr \<lparr>data = Some conn, pool = Some this\<rparr>,
              p2\<lparr>Connections := inc_ref conn (Connections p2)\<rparr>, emit Unlock w2)
         | (Inr None, p2, w2) \<Rightarrow> (Inr Entry_default, p2, emit Unlock w2))"
    using init by (simp add: tryGet_grow)
  from c have al: "AllocConnection d True p1 w1 =
     (Inr (Some (length (Connections p1))),
      p1\<lparr>was_successful := True, Connections := Connections p1 @ [\<lparr>ref_count = 0\<rparr>]\<rparr>,
      snd (afterConnect d p1 (length (Connections p1))
             (snd (conn_connect d (length (Connections p1)) w1))))"
    by (simp add: AllocConnection_connected)
  show "fst (tryGet d this p w) = Inr \<lparr>data = Some (length (Connections p1)), pool = Some this\<rparr>"
    by (simp add: g al)
  show "Connections (fst (snd (tryGet d this p w))) = Connections p1 @ [\<lparr>ref_count = 1\<rparr>]"
    by (simp add: g al inc_ref_def)
next
  fix errnum
  assume a: "find_idle (Connections p1) 0 = None \<and> length (Connections p1) < unat (MaxConnections p1)"
    and c: "connect_result d (connects w1) = Some errnum \<and> \<not> fatal_errnum errnum
       \<and> \<not> cancelled_result d (cancel_checks w1)"
  from a have g: "tryGet d this p w
      = (case AllocConnection d True p1 w1 of
           (Inl x, p2, w2) \<Rightarrow> (Inl x, p2, emit Unlock w2)
         | (Inr (Some conn), p2, w2) \<Rightarrow>
             (Inr \<lparr>data = Some conn, pool = Some this\<rparr>,
              p2\<lparr>Connections := inc_ref conn (Connections p2)\<rparr>, emit Unlock w2)
         | (Inr None, p2, w2) \<Rightarrow> (Inr Entry_default, p2, emit Unlock w2))"
    using init by (simp add: tryGet_grow)
  from c have al: "AllocConnection d True p1 w1 =
     (Inr None, p1, snd (isCancelled d (snd (conn_connect d (length (Connections p1)) w1))))"
    by (simp add: AllocConnection_transient)
  show "fst (tryGet d this p w) = Inr Entry_default"
    by (simp add: g al)
  show "fst (snd (tryGet d this p w)) = p1"
    by (simp add: g al)
qed

theorem tryGet_failure_modes_witness:
  "tryGet (scripted [] [] [] []) 0 (warm_pool 1 [\<lparr>ref_count = 1\<rparr>]) world0
     = (Inl (PocoException ''mysqlxx::Pool is full''), warm_pool 1 [\<lparr>ref_count = 1\<rparr>],
        world0\<lparr>trace := [Lock, Unlock]\<rparr>)
   \<and> tryGet (scripted [] [False] [] []) 0 (warm_pool 1 [\<lparr>ref_count = 0\<rparr>]) world0
     = (Inr Entry_default, warm_pool 1 [\<lparr>ref_count = 0\<rparr>],
        world0\<lparr>pings := 1, trace := [Lock, Ping 0, Unlock]\<rparr>)
   \<and> fst (tryGet (scripted [] [] [] []) 0 (warm_pool 2 [\<lparr>ref_count = 1\<rparr>]) world0)
     = Inr \<lparr>data = Some 1, pool = Some 0\<rparr>
   \<and> fst (tryGet (scripted [Some 2003] [] [] []) 0 (warm_pool 2 [\<lparr>ref_count = 1\<rparr>]) world0)
     = Inr Entry_default"
proof -
  have i1: "Initialize (scripted [] [] [] []) (warm_pool 1 [\<lparr>ref_count = 1\<rparr>]) (emit Lock world0)
      = (Inr (), warm_pool 1 [\<lparr>ref_count = 1\<rparr>], emit Lock world0)"
    by (simp add: Initialize_def warm_pool_def)
  have i2: "Initialize (scripted [] [False] [] []) (warm_pool 1 [\<lparr>ref_count = 0\<rparr>]) (emit Lock world0)
      = (Inr (), warm_pool 1 [\<lparr>ref_count = 0\<rparr>], emit Lock world0)"
    by (simp add: Initialize_def warm_pool_def)
  have i3: "Initialize (scripted [] [] [] []) (warm_pool 2 [\<lparr>ref_count = 1\<rparr>]) (emit Lock world0)
      = (Inr (), warm_pool 2 [\<lparr>ref_count = 1\<rparr>], emit Lock world0)"
    by (simp add: Initialize_def warm_pool_def)
  have i4: "Initialize (scripted [Some 2003] [] [] []) (warm_pool 2 [\<lparr>ref_count = 1\<rparr>]) (emit Lock world0)
      = (Inr (), warm_pool 2 [\<lparr>ref_count = 1\<rparr>], emit Lock world0)"
    by (simp add: Initialize_def warm_pool_def)
  from tryGet_failure_modes [OF i1, of 0]
  have "tryGet (scripted [] [] [] []) 0 (warm_pool 1 [\<lparr>ref_count = 1\<rparr>]) world0
     = (Inl (PocoException ''mysqlxx::Pool is full''), warm_pool 1 [\<lparr>ref_count = 1\<rparr>],
        world0\<lparr>trace := [Lock, Unlock]\<rparr>)"
    by (simp add: warm_pool_def world0_def emit_def)
  moreover from tryGet_failure_modes [OF i2, of 0]
  have "tryGet (scripted [] [False] [] []) 0 (warm_pool 1 [\<lparr>ref_count = 0\<rparr>]) world0
     = (Inr Entry_default, warm_pool 1 [\<lparr>ref_count = 0\<rparr>],
        world0\<lparr>pings := 1, trace := [Lock, Ping 0, Unlock]\<rparr>)"
    by (simp add: warm_pool_def world0_def emit_def scripted_def)
  moreover have "fst (tryGet (scripted [] [] [] []) 0 (warm_pool 2 [\<lparr>ref_count = 1\<rparr>]) world0)
     = Inr \<lparr>data = Some 1, pool = Some 0\<rparr>"
  proof -
    have "find_idle (Connections (warm_pool 2 [\<lparr>ref_count = 1\<rparr>])) 0 = None
        \<and> length (Connections (warm_pool 2 [\<lparr>ref_count = 1\<rparr>]))
           < unat (MaxConnections (warm_pool 2 [\<lparr>ref_count = 1\<rparr>]))"
      and "connect_result (scripted [] [] [] []) (connects (emit Lock world0)) = None
        \<and> (InitConnect (warm_pool 2 [\<lparr>ref_count = 1\<rparr>]) = []
           \<or> execute_result (scripted [] [] [] []) (executes (emit Lock world0)) = None)"
      by (simp_all add: warm_pool_def scripted_def)
    with tryGet_failure_modes [OF i3, of 0]
    have "fst (tryGet (scripted [] [] [] []) 0 (warm_pool 2 [\<lparr>ref_count = 1\<rparr>]) world0)
     = Inr \<lparr>data = Some (length (Connections (warm_pool 2 [\<lparr>ref_count = 1\<rparr>]))), pool = Some 0\<rparr>"
      by blast
    then show ?thesis by (simp add: warm_pool_def)
  qed
  moreover have "fst (tryGet (scripted [Some 2003] [] [] []) 0 (warm_pool 2 [\<lparr>ref_count = 1\<rparr>]) world0)
     = Inr Entry_default"
  proof -
    have "find_idle (Connections (warm_pool 2 [\<lparr>ref_count = 1\<rparr>])) 0 = None
        \<and> length (Connections (warm_pool 2 [\<lparr>ref_count = 1\<rparr>]))
           < unat (MaxConnections (warm_pool 2 [\<lparr>ref_count = 1\<rparr>]))"
      and "connect_result (scripted [Some 2003] [] [] []) (connects (emit Lock world0)) = Some 2003
        \<and> \<not> fatal_errnum 2003
        \<and> \<not> cancelled_result (scripted [Some 2003] [] [] []) (cancel_checks (emit Lock world0))"
      by (simp_all add: warm_pool_def scripted_def world0_def emit_def fatal_errnum_def
            ER_ACCESS_DENIED_ERROR_def ER_DBACCESS_DENIED_ERROR_def ER_BAD_DB_ERROR_def)
    with tryGet_failure_modes [OF i4, of 0] show ?thesis
      by blast
  qed
  ultimately show ?thesis by blast
qed

text \<open>
  Claim C10. When the scan of \<^verbatim>\<open>tryGet\<close> finds the idle connection \<open>i\<close> and its \<^verbatim>\<open>ping\<close>
  fails, \<^verbatim>\<open>tryGet\<close> returns the empty entry and the pool is as \<^verbatim>\<open>Initialize\<close> left it (as
  it was before the call, once initialised): the count of \<open>i\<close>, which was 1 while the local
  entry \<^verbatim>\<open>res\<close> lived, is 0 again. A later \<^verbatim>\<open>Get\<close> hands out \<open>i\<close>, and so does a later
  \<^verbatim>\<open>tryGet\<close> whose \<^verbatim>\<open>ping\<close> succeeds.
\<close>

theorem tryGet_dead_idle_restores_ref_count:
  assumes init: "Initialize d p (emit Lock w) = (Inr (), p1, w1)"
    and idle: "find_idle (Connections p1) 0 = Some i"
    and dead: "\<not> ping_result d (pings w1)"
  shows "tryGet d this p w
           = (Inr Entry_default, p1, w1\<lparr>pings := pings w1 + 1, trace := trace w1 @ [Ping i, Unlock]\<rparr>)
       \<and> isNull Entry_default
       \<and> (Initialized p \<longrightarrow> p1 = p)
       \<and> ref_count (snd (Entry_ctor (Some i) (Some this) (Connections p1)) ! i) = 1
       \<and> ref_count (Connections p1 ! i) = 0
       \<and> (\<forall>fuel d' w'. Get (Suc fuel) d' this p1 w'
             = Some (Inr \<lparr>data = Some i, pool = Some this\<rparr>,
                     p1\<lparr>Connections := inc_ref i (Connections p1)\<rparr>,
                     w'\<lparr>trace := trace w' @ [Lock, Unlock]\<rparr>))
       \<and> (\<forall>d' w'. ping_result d' (pings w')
             \<longrightarrow> tryGet d' this p1 w'
                 = (Inr \<lparr>data = Some i, pool = Some this\<rparr>,
                    p1\<lparr>Connections := inc_ref i (Connections p1)\<rparr>,
                    w'\<lparr>pings := pings w' + 1, trace := trace w' @ [Lock, Ping i, Unlock]\<rparr>))"
proof -
  from find_idle_0 [OF idle] have i: "i < length (Connections p1)"
    and zero: "ref_count (Connections p1 ! i) = 0" by simp_all
  from init have ini: "Initialized p1" by (rule Initialize_Inr_Initialized)
  then have again: "Initialize d' p1 w' = (Inr (), p1, w')" for d' w'
    by (rule Initialize_done)
  have "tryGet d this p w
      = (Inr Entry_default, p1, w1\<lparr>pings := pings w1 + 1, trace := trace w1 @ [Ping i, Unlock]\<rparr>)"
    using tryGet_idle_dead [OF init idle dead] by (simp add: env_defs)
  moreover have "isNull Entry_default"
    by (simp add: isNull_def Entry_default_def)
  moreover have "Initialized p \<longrightarrow> p1 = p"
    using init by (auto simp: Initialize_def)
  moreover have "ref_count (snd (Entry_ctor (Some i) (Some this) (Connections p1)) ! i) = 1"
    using i zero by (simp add: Entry_ctor_def inc_ref_def)
  moreover have "Get (Suc fuel) d' this p1 w'
      = Some (Inr \<lparr>data = Some i, pool = Some this\<rparr>,
              p1\<lparr>Connections := inc_ref i (Connections p1)\<rparr>,
              w'\<lparr>trace := trace w' @ [Lock, Unlock]\<rparr>)" for fuel d' w'
    using idle by (simp add: Get_def again Entry_ctor_def emit_def)
  moreover have "tryGet d' this p1 w'
      = (Inr \<lparr>data = Some i, pool = Some this\<rparr>,
         p1\<lparr>Connections := inc_ref i (Connections p1)\<rparr>,
         w'\<lparr>pings := pings w' + 1, trace := trace w' @ [Lock, Ping i, Unlock]\<rparr>)"
    if "ping_result d' (pings w')" for d' w'
    using tryGet_idle_alive [OF again idle, of d' w' this] that by (simp add: env_defs)
  ultimately show ?thesis using zero by blast
qed

theorem tryGet_dead_idle_restores_ref_count_witness:
  "tryGet (scripted [] [False] [] []) 0 (warm_pool 4 [\<lparr>ref_count = 1\<rparr>, \<lparr>ref_count = 0\<rparr>]) world0
     = (Inr Entry_default, warm_pool 4 [\<lparr>ref_count = 1\<rparr>, \<lparr>ref_count = 0\<rparr>],
        world0\<lparr>pings := 1, trace := [Lock, Ping 1, Unlock]\<rparr>)
   \<and> Get 1 (scripted [] [] [] []) 0 (warm_pool 4 [\<lparr>ref_count = 1\<rparr>, \<lparr>ref_count = 0\<rparr>])
        (world0\<lparr>pings := 1, trace := [Lock, Ping 1, Unlock]\<rparr>)
     = Some (Inr \<lparr>data = Some 1, pool = Some 0\<rparr>,
             warm_pool 4 [\<lparr>ref_count = 1\<rparr>, \<lparr>ref_count = 1\<rparr>],
             world0\<lparr>pings := 1, trace := [Lock, Ping 1, Unlock, Lock, Unlock]\<rparr>)"
proof -
  let ?p = "warm_pool 4 [\<lparr>ref_count = 1\<rparr>, \<lparr>ref_count = 0\<rparr>]"
  have init: "Initialize (scripted [] [False] [] []) ?p (emit Lock world0)
      = (Inr (), ?p, emit Lock world0)"
    by (simp add: Initialize_def warm_pool_def)
  have idle: "find_idle (Connections ?p) 0 = Some 1"
    by (simp add: warm_pool_def)
  have dead: "\<not> ping_result (scripted [] [False] [] []) (pings (emit Lock world0))"
    by (simp add: scripted_def world0_def emit_def)
  note th = tryGet_dead_idle_restores_ref_count [OF init idle dead, of 0]
  from th have "tryGet (scripted [] [False] [] []) 0 ?p world0
      = (Inr Entry_default, ?p,
         (emit Lock world0)\<lparr>pings := pings (emit Lock world0) + 1,
                             trace := trace (emit Lock world0) @ [Ping 1, Unlock]\<rparr>)"
    by blast
  then have a: "tryGet (scripted [] [False] [] []) 0 ?p world0
      = (Inr Entry_default, ?p, world0\<lparr>pings := 1, trace := [Lock, Ping 1, Unlock]\<rparr>)"
    by (simp add: world0_def emit_def)
  from th have "Get (Suc 0) (scripted [] [] [] []) 0 ?p
        (world0\<lparr>pings := 1, trace := [Lock, Ping 1, Unlock]\<rparr>)
      = Some (Inr \<lparr>data = Some 1, pool = Some 0\<rparr>,
              ?p\<lparr>Connections := inc_ref 1 (Connections ?p)\<rparr>,
              (world0\<lparr>pings := 1, trace := [Lock, Ping 1, Unlock]\<rparr>)
                \<lparr>trace := trace (world0\<lparr>pings := 1, trace := [Lock, Ping 1, Unlock]\<rparr>)
                           @ [Lock, Unlock]\<rparr>)"
    by blast
  then have b: "Get 1 (scripted [] [] [] []) 0 ?p
        (world0\<lparr>pings := 1, trace := [Lock, Ping 1, Unlock]\<rparr>)
      = Some (Inr \<lparr>data = Some 1, pool = Some 0\<rparr>,
              warm_pool 4 [\<lparr>ref_count = 1\<rparr>, \<lparr>ref_count = 1\<rparr>],
              world0\<lparr>pings := 1, trace := [Lock, Ping 1, Unlock, Lock, Unlock]\<rparr>)"
    by (simp add: warm_pool_def world0_def inc_ref_def)
  from a b show ?thesis by blast
qed

subsection \<open>What AllocConnection and Initialize do\<close>

text \<open>The five ways a call of \<^verbatim>\<open>AllocConnection\<close> can go.\<close>

lemma AllocConnection_cases:
  assumes "AllocConnection d b p w = (r, p', w')"
  obtains
    (raised) errnum where "connect_result d (connects w) = Some errnum"
      and "(\<not> was_successful p \<and> \<not> b) \<or> fatal_errnum errnum"
      and "r = Inl (ConnectionFailed errnum)" and "p' = p"
      and "w' = w\<lparr>connects := connects w + 1, trace := trace w @ [Connect (length (Connections p))]\<rparr>"
  | (cancelled) errnum where "connect_result d (connects w) = Some errnum"
      and "was_successful p \<or> b" and "\<not> fatal_errnum errnum"
      and "cancelled_result d (cancel_checks w)"
      and "r = Inl (PocoException cancelled_message)" and "p' = p"
      and "w' = w\<lparr>connects := connects w + 1, cancel_checks := cancel_checks w + 1,
                  trace := trace w @ [Connect (length (Connections p)), IsCancelled]\<rparr>"
  | (swallowed) errnum where "connect_result d (connects w) = Some errnum"
      and "was_successful p \<or> b" and "\<not> fatal_errnum errnum"
      and "\<not> cancelled_result d (cancel_checks w)"
      and "r = Inr None" and "p' = p"
      and "w' = w\<lparr>connects := connects w + 1, cancel_checks := cancel_checks w + 1,
                  trace := trace w @ [Connect (length (Connections p)), IsCancelled]\<rparr>"
  | (statement_failed) msg where "connect_result d (connects w) = None"
      and "InitConnect p \<noteq> []" and "execute_result d (executes w) = Some msg"
      and "r = Inl (ExecuteFailed msg)" and "p' = p\<lparr>was_successful := True\<rparr>"
      and "w' = w\<lparr>connects := connects w + 1, executes := executes w + 1,
                  trace := trace w @ [Connect (length (Connections p)),
                                      Execute (length (Connections p)) (InitConnect p)]\<rparr>"
  | (connected) "connect_result d (connects w) = None"
      and "InitConnect p = [] \<or> execute_result d (executes w) = None"
      and "r = Inr (Some (length (Connections p)))"
      and "p' = p\<lparr>was_successful := True, Connections := Connections p @ [\<lparr>ref_count = 0\<rparr>]\<rparr>"
      and "w' = w\<lparr>connects := connects w + 1,
                  executes := executes w + (if InitConnect p = [] then 0 else 1),
                  trace := trace w @ Connect (length (Connections p))
                     # (if InitConnect p = [] then []
                        else [Execute (length (Connections p)) (InitConnect p)])\<rparr>"
proof (cases "connect_result d (connects w)")
  case None
  show ?thesis
  proof (cases "InitConnect p = []")
    case True
    with None assms show ?thesis
      by (intro connected) (auto simp: AllocConnection_def afterConnect_def env_defs Let_def)
  next
    case False
    show ?thesis
    proof (cases "execute_result d (executes w)")
      case ok: None
      with None False assms show ?thesis
        by (intro connected) (auto simp: AllocConnection_def afterConnect_def env_defs Let_def)
    next
      case (Some msg)
      with None False assms show ?thesis
        by (intro statement_failed [of msg])
           (auto simp: AllocConnection_def afterConnect_def env_defs Let_def)
    qed
  qed
next
  case (Some errnum)
  show ?thesis
  proof (cases "(\<not> was_successful p \<and> \<not> b) \<or> fatal_errnum errnum")
    case True
    with Some assms show ?thesis
      by (intro raised [of errnum])
         (auto simp: AllocConnection_def fatal_errnum_def env_defs Let_def)
  next
    case False
    show ?thesis
    proof (cases "cancelled_result d (cancel_checks w)")
      case True
      with Some False assms show ?thesis
        by (intro cancelled [of errnum])
           (auto simp: AllocConnection_def fatal_errnum_def cancelled_message_def env_defs Let_def)
    next
      case nc: False
      with Some False assms show ?thesis
        by (intro swallowed [of errnum])
           (auto simp: AllocConnection_def fatal_errnum_def env_defs Let_def)
    qed
  qed
qed

lemma AllocConnection_frame:
  assumes "AllocConnection d b p w = (r, p', w')"
  shows "DefaultConnections p' = DefaultConnections p"
    and "MaxConnections p' = MaxConnections p"
    and "InitConnect p' = InitConnect p"
    and "Initialized p' = Initialized p"
    and "config_name p' = config_name p"
    and "description p' = description p"
    and "connects w' = connects w + 1"
    and "length (Connections p') \<le> length (Connections p) + 1"
    and "\<exists>t. trace w' = trace w @ t \<and> Lock \<notin> set t \<and> Unlock \<notin> set t"
  using assms by (cases rule: AllocConnection_cases; simp)+

lemma AllocConnection_was_successful:
  assumes "AllocConnection d b p w = (r, p', w')" and "was_successful p"
  shows "was_successful p'"
  using assms by (cases rule: AllocConnection_cases) simp_all

lemma AllocConnection_Some:
  assumes "AllocConnection d b p w = (Inr (Some c), p', w')"
  shows "c = length (Connections p)"
    and "Connections p' = Connections p @ [\<lparr>ref_count = 0\<rparr>]"
    and "was_successful p'"
  using assms by (cases rule: AllocConnection_cases; simp)+

lemma AllocConnection_not_Some:
  assumes "AllocConnection d b p w = (r, p', w')" and "\<forall>c. r \<noteq> Inr (Some c)"
  shows "Connections p' = Connections p"
  using assms by (cases rule: AllocConnection_cases) simp_all

lemma AllocConnection_Inl:
  assumes "AllocConnection d b p w = (Inl x, p', w')"
  shows "connect_exception x p'"
  using assms by (cases rule: AllocConnection_cases) (auto simp: connect_exception_def)

text \<open>The loop of \<^verbatim>\<open>Initialize\<close>, and \<^verbatim>\<open>Initialize\<close>.\<close>

lemma alloc_default_frame:
  "alloc_default n d p w = (r, p', w') \<Longrightarrow>
     DefaultConnections p' = DefaultConnections p
   \<and> MaxConnections p' = MaxConnections p
   \<and> InitConnect p' = InitConnect p
   \<and> Initialized p' = Initialized p
   \<and> config_name p' = config_name p
   \<and> description p' = description p
   \<and> (was_successful p \<longrightarrow> was_successful p')
   \<and> connects w' \<le> connects w + n
   \<and> ((\<exists>u. r = Inr u) \<longrightarrow> connects w' = connects w + n)
   \<and> length (Connections p') \<le> length (Connections p) + n
   \<and> (\<exists>t. trace w' = trace w @ t \<and> Lock \<notin> set t \<and> Unlock \<notin> set t)
   \<and> (\<forall>x. r = Inl x \<longrightarrow> connect_exception x p')"
proof (induction n arbitrary: p w)
  case 0
  then show ?case by auto
next
  case (Suc n)
  obtain r1 p1 w1 where a: "AllocConnection d False p w = (r1, p1, w1)"
    by (cases "AllocConnection d False p w") auto
  note f = AllocConnection_frame [OF a] AllocConnection_was_successful [OF a]
  show ?case
  proof (cases r1)
    case (Inl x)
    with Suc.prems a have "r = Inl x" "p' = p1" "w' = w1" by simp_all
    with f AllocConnection_Inl [of d False p w x p1 w1] a Inl show ?thesis by auto
  next
    case (Inr c)
    with Suc.prems a have "alloc_default n d p1 w1 = (r, p', w')" by simp
    from Suc.IH [OF this] f show ?thesis by auto
  qed
qed

lemma alloc_default_all_connect:
  assumes "\<forall>k<n. connect_result d (connects w + k) = None"
    and "InitConnect p = [] \<or> (\<forall>k<n. execute_result d (executes w + k) = None)"
  shows "\<exists>w'. alloc_default n d p w =
     (Inr (), p\<lparr>was_successful := was_successful p \<or> 0 < n,
              Connections := Connections p @ replicate n \<lparr>ref_count = 0\<rparr>\<rparr>, w')"
  using assms
proof (induction n arbitrary: p w)
  case 0
  then show ?case by simp
next
  case (Suc n)
  from Suc.prems have c: "connect_result d (connects w) = None"
    and e: "InitConnect p = [] \<or> execute_result d (executes w) = None"
    by auto
  let ?p1 = "p\<lparr>was_successful := True, Connections := Connections p @ [\<lparr>ref_count = 0\<rparr>]\<rparr>"
  let ?w1 = "snd (afterConnect d p (length (Connections p))
                (snd (conn_connect d (length (Connections p)) w)))"
  have a: "AllocConnection d False p w = (Inr (Some (length (Connections p))), ?p1, ?w1)"
    using c e by (rule AllocConnection_connected)
  have cw: "connects ?w1 = connects w + 1"
    and ew: "InitConnect p \<noteq> [] \<Longrightarrow> executes ?w1 = executes w + 1"
    by (auto simp: afterConnect_def env_defs split: option.splits)
  have "\<forall>k<n. connect_result d (connects ?w1 + k) = None"
    using Suc.prems(1) cw by auto
  moreover have "InitConnect ?p1 = [] \<or> (\<forall>k<n. execute_result d (executes ?w1 + k) = None)"
    using Suc.prems(2) ew by (cases "InitConnect p = []") auto
  ultimately obtain w' where
    "alloc_default n d ?p1 ?w1 =
       (Inr (), ?p1\<lparr>was_successful := was_successful ?p1 \<or> 0 < n,
                   Connections := Connections ?p1 @ replicate n \<lparr>ref_count = 0\<rparr>\<rparr>, w')"
    using Suc.IH [of ?w1 ?p1] by blast
  with a show ?case by (simp add: replicate_app_Cons_same)
qed

lemma Initialize_frame:
  assumes "Initialize d p w = (r, p', w')"
  shows "DefaultConnections p' = DefaultConnections p"
    and "MaxConnections p' = MaxConnections p"
    and "InitConnect p' = InitConnect p"
    and "config_name p' = config_name p"
    and "was_successful p \<Longrightarrow> was_successful p'"
    and "Initialized p \<Longrightarrow> Initialized p'"
    and "\<exists>t. trace w' = trace w @ t \<and> Lock \<notin> set t \<and> Unlock \<notin> set t"
    and "\<And>x. r = Inl x \<Longrightarrow> connect_exception x p' \<or> (\<exists>k. x = NotFoundException k)"
proof -
  show "DefaultConnections p' = DefaultConnections p"
    and "MaxConnections p' = MaxConnections p"
    and "InitConnect p' = InitConnect p"
    and "config_name p' = config_name p"
    and "was_successful p \<Longrightarrow> was_successful p'"
    and "Initialized p \<Longrightarrow> Initialized p'"
    and "\<exists>t. trace w' = trace w @ t \<and> Lock \<notin> set t \<and> Unlock \<notin> set t"
    using assms
    by (auto simp: Initialize_def split: if_splits sum.splits prod.splits
          dest!: alloc_default_frame)
  show "connect_exception x p' \<or> (\<exists>k. x = NotFoundException k)" if "r = Inl x" for x
    using assms that
    by (auto simp: Initialize_def compose_description_def getString_def
          split: if_splits sum.splits prod.splits option.splits dest!: alloc_default_frame)
qed

subsection \<open>Get\<close>

text \<open>What the loop of \<^verbatim>\<open>Get\<close> returns or throws.\<close>

lemma Get_loop_result:
  "Get_loop fuel d this p w = Some (r, p', w') \<Longrightarrow>
     DefaultConnections p' = DefaultConnections p
   \<and> MaxConnections p' = MaxConnections p
   \<and> InitConnect p' = InitConnect p
   \<and> Initialized p' = Initialized p
   \<and> config_name p' = config_name p
   \<and> description p' = description p
   \<and> (was_successful p \<longrightarrow> was_successful p')
   \<and> (\<forall>e. r = Inr e \<longrightarrow>
         (\<exists>i. e = \<lparr>data = Some i, pool = Some this\<rparr> \<and> i < length (Connections p')
              \<and> ref_count (Connections p' ! i) = 1))
   \<and> (\<forall>x. r = Inl x \<longrightarrow> connect_exception x p')"
proof (induction fuel arbitrary: p w)
  case 0
  then show ?case by simp
next
  case (Suc fuel)
  show ?case
  proof (cases "find_idle (Connections p) 0")
    case (Some i)
    from find_idle_0 [OF Some] have "i < length (Connections p)"
      and "ref_count (Connections p ! i) = 0" by simp_all
    with Suc.prems Some show ?thesis
      by (auto simp: Entry_ctor_def ref_count_inc_ref)
  next
    case None
    show ?thesis
    proof (cases "length (Connections p) < unat (MaxConnections p)")
      case False
      with Suc.prems None have "Get_loop fuel d this p (backoff w) = Some (r, p', w')"
        by simp
      from Suc.IH [OF this] show ?thesis .
    next
      case True
      obtain r1 p1 w1 where a: "AllocConnection d False p w = (r1, p1, w1)"
        by (cases "AllocConnection d False p w") auto
      note f = AllocConnection_frame [OF a] AllocConnection_was_successful [OF a]
      show ?thesis
      proof (cases r1)
        case (Inl x)
        with Suc.prems None True a have "r = Inl x" "p' = p1" "w' = w1" by simp_all
        with f AllocConnection_Inl [of d False p w x p1 w1] a Inl show ?thesis by auto
      next
        case (Inr c)
        show ?thesis
        proof (cases c)
          case none: None
          with Suc.prems None True a Inr
          have "Get_loop fuel d this p1 (backoff w1) = Some (r, p', w')" by simp
          from Suc.IH [OF this] f show ?thesis by auto
        next
          case (Some conn)
          with a Inr have s: "AllocConnection d False p w = (Inr (Some conn), p1, w1)" by simp
          note g = AllocConnection_Some [OF s]
          from Suc.prems None True s
          have "r = Inr \<lparr>data = Some conn, pool = Some this\<rparr>"
            and "p' = p1\<lparr>Connections := inc_ref conn (Connections p1)\<rparr>"
            by (simp_all add: Entry_ctor_def)
          with f g show ?thesis
            by (auto simp: inc_ref_def nth_append)
        qed
      qed
    qed
  qed
qed










text \<open>
  And a failure that \<^verbatim>\<open>Initialize\<close> swallows has no back-off. On a new pool with a statement,
  the first \<^verbatim>\<open>Get\<close> connects and throws on the statement, which leaves \<^verbatim>\<open>was_successful\<close> true
  and \<^verbatim>\<open>Initialized\<close> false. In the second \<^verbatim>\<open>Get\<close> the \<^verbatim>\<open>connect\<close> of \<^verbatim>\<open>Initialize\<close> fails with
  the code 2003 and the loop of \<^verbatim>\<open>Get\<close> connects at once: between the two \<^verbatim>\<open>connect\<close>s there
  is no \<open>Unlock\<close>, \<open>Yield\<close> or \<open>Sleep 10\<close>.
\<close>

lemma Get_no_backoff_in_Initialize:
  "Get 1 (scripted [None, Some 2003] [] [Some ''syntax error''] []) 0
       (Pool_ctor ''mysql'' 1 16 ''SET NAMES cp1251'') world0
     = Some (Inl (ExecuteFailed ''syntax error''),
             \<lparr>DefaultConnections = 1, MaxConnections = 16, InitConnect = ''SET NAMES cp1251'',
              Initialized = False, Connections = [], config_name = ''mysql'',
              description = ''test@localhost:3306 as user root'', was_successful = True\<rparr>,
             \<lparr>connects = 1, pings = 0, executes = 1, cancel_checks = 0,
              trace = [Lock, Connect 0, Execute 0 ''SET NAMES cp1251'', Unlock]\<rparr>)
   \<and> Get 1 (scripted [None, Some 2003] [] [Some ''syntax error''] []) 0
        \<lparr>DefaultConnections = 1, MaxConnections = 16, InitConnect = ''SET NAMES cp1251'',
         Initialized = False, Connections = [], config_name = ''mysql'',
         description = ''test@localhost:3306 as user root'', was_successful = True\<rparr>
        \<lparr>connects = 1, pings = 0, executes = 1, cancel_checks = 0,
         trace = [Lock, Connect 0, Execute 0 ''SET NAMES cp1251'', Unlock]\<rparr>
     = Some (Inr \<lparr>data = Some 0, pool = Some 0\<rparr>,
             \<lparr>DefaultConnections = 1, MaxConnections = 16, InitConnect = ''SET NAMES cp1251'',
              Initialized = True, Connections = [\<lparr>ref_count = 1\<rparr>], config_name = ''mysql'',
              description = ''test@localhost:3306 as user root'', was_successful = True\<rparr>,
             \<lparr>connects = 3, pings = 0, executes = 2, cancel_checks = 1,
              trace = [Lock, Connect 0, Execute 0 ''SET NAMES cp1251'', Unlock,
                       Lock, Connect 0, IsCancelled, Connect 0,
                       Execute 0 ''SET NAMES cp1251'', Unlock]\<rparr>)"
  by (simp add: pool_defs env_defs demo_defs)

subsection \<open>Initialize\<close>

lemma tryGet_frame:
  assumes "tryGet d this p w = (r, p', w')"
  shows "Initialized p \<Longrightarrow> Initialized p'"
    and "was_successful p \<Longrightarrow> was_successful p'"
proof -
  obtain r1 p1 w1 where i: "Initialize d p (emit Lock w) = (r1, p1, w1)"
    by (cases "Initialize d p (emit Lock w)") auto
  note f = Initialize_frame(5,6) [OF i]
  obtain r2 p2 w2 where a: "AllocConnection d True p1 w1 = (r2, p2, w2)"
    by (cases "AllocConnection d True p1 w1") auto
  note g = AllocConnection_frame(4) [OF a] AllocConnection_was_successful [OF a]
  have "(Initialized p \<longrightarrow> Initialized p') \<and> (was_successful p \<longrightarrow> was_successful p')"
    using assms i a f g
    by (auto simp: tryGet_def Entry_ctor_def Entry_copy_def tryForceConnected_def conn_ping_def
          split: sum.splits option.splits if_splits bool.splits)
  then show "Initialized p \<Longrightarrow> Initialized p'" and "was_successful p \<Longrightarrow> was_successful p'"
    by simp_all
qed

lemma Get_frame:
  assumes "Get fuel d this p w = Some (r, p', w')"
  shows "Initialized p \<Longrightarrow> Initialized p'"
    and "was_successful p \<Longrightarrow> was_successful p'"
proof -
  obtain r1 p1 w1 where i: "Initialize d p (emit Lock w) = (r1, p1, w1)"
    by (cases "Initialize d p (emit Lock w)") auto
  note f = Initialize_frame(5,6) [OF i]
  have "(Initialized p \<longrightarrow> Initialized p') \<and> (was_successful p \<longrightarrow> was_successful p')"
  proof (cases r1)
    case (Inl x)
    with assms i f show ?thesis by (auto simp: Get_def)
  next
    case (Inr u)
    with assms i obtain w2 where "Get_loop fuel d this p1 w1 = Some (r, p', w2)"
      by (auto simp: Get_def split: option.splits)
    from Get_loop_result [OF this] f show ?thesis by auto
  qed
  then show "Initialized p \<Longrightarrow> Initialized p'" and "was_successful p \<Longrightarrow> was_successful p'"
    by simp_all
qed

lemma Initialize_completed:
  assumes "\<not> Initialized p" and "Initialize d p w = (Inr u, p', w')"
  shows "Initialized p'"
    and "compose_description d (config_name p) = Inr (description p')"
    and "connects w' = connects w + unat (DefaultConnections p)"
    and "length (Connections p') \<le> length (Connections p) + unat (DefaultConnections p)"
proof -
  from assms obtain desc p1 where
    c: "compose_description d (config_name p) = Inr desc"
    and a: "alloc_default (unat (DefaultConnections p)) d (p\<lparr>description := desc\<rparr>) w
          = (Inr (), p1, w')"
    and p': "p' = p1\<lparr>Initialized := True\<rparr>"
    by (auto simp: Initialize_def split: sum.splits prod.splits)
  from alloc_default_frame [OF a] c p'
  show "Initialized p'"
    and "compose_description d (config_name p) = Inr (description p')"
    and "connects w' = connects w + unat (DefaultConnections p)"
    and "length (Connections p') \<le> length (Connections p) + unat (DefaultConnections p)"
    by simp_all
qed

lemma Initialize_all_connect:
  assumes "\<not> Initialized p" and "compose_description d (config_name p) = Inr desc"
    and "\<forall>k<unat (DefaultConnections p). connect_result d (connects w + k) = None"
    and "InitConnect p = []
       \<or> (\<forall>k<unat (DefaultConnections p). execute_result d (executes w + k) = None)"
  shows "\<exists>w'. Initialize d p w =
     (Inr (), p\<lparr>description := desc,
               was_successful := was_successful p \<or> 0 < unat (DefaultConnections p),
               Connections := Connections p
                  @ replicate (unat (DefaultConnections p)) \<lparr>ref_count = 0\<rparr>,
               Initialized := True\<rparr>, w')"
proof -
  from assms(3,4) obtain w' where
    "alloc_default (unat (DefaultConnections p)) d (p\<lparr>description := desc\<rparr>) w =
     (Inr (), p\<lparr>description := desc\<rparr>
         \<lparr>was_successful := was_successful (p\<lparr>description := desc\<rparr>)
             \<or> 0 < unat (DefaultConnections p),
          Connections := Connections (p\<lparr>description := desc\<rparr>)
             @ replicate (unat (DefaultConnections p)) \<lparr>ref_count = 0\<rparr>\<rparr>, w')"
    using alloc_default_all_connect
            [of "unat (DefaultConnections p)" d w "p\<lparr>description := desc\<rparr>"]
    by auto
  with assms(1,2) show ?thesis by (simp add: Initialize_def)
qed

text \<open>
  Claim C7, as the code has it. \<^verbatim>\<open>Get\<close> and \<^verbatim>\<open>tryGet\<close> take the lock and run \<^verbatim>\<open>Initialize\<close>
  before anything else, and \<^verbatim>\<open>Initialize\<close> neither releases nor takes the lock. On a pool
  that is not initialised, an \<^verbatim>\<open>Initialize\<close> that returns has composed the description, has
  called \<^verbatim>\<open>connect\<close> exactly \<^verbatim>\<open>DefaultConnections\<close> times and has then set \<^verbatim>\<open>Initialized\<close>;
  it has added at most \<^verbatim>\<open>DefaultConnections\<close> connections, and exactly that many when every
  \<^verbatim>\<open>connect\<close> (and statement) succeeds. On an initialised pool \<^verbatim>\<open>Initialize\<close> does nothing,
  and no \<^verbatim>\<open>Get\<close> or \<^verbatim>\<open>tryGet\<close> takes \<^verbatim>\<open>Initialized\<close> back to false.
\<close>

theorem Initialize_once:
  "(\<forall>p' w'. \<not> Initialized p \<and> Initialize d p w = (Inr (), p', w') \<longrightarrow>
        Initialized p'
      \<and> compose_description d (config_name p) = Inr (description p')
      \<and> connects w' = connects w + unat (DefaultConnections p)
      \<and> length (Connections p') \<le> length (Connections p) + unat (DefaultConnections p))
   \<and> (\<forall>desc. \<not> Initialized p \<and> compose_description d (config_name p) = Inr desc
        \<and> (\<forall>k<unat (DefaultConnections p). connect_result d (connects w + k) = None)
        \<and> (InitConnect p = []
           \<or> (\<forall>k<unat (DefaultConnections p). execute_result d (executes w + k) = None))
      \<longrightarrow> fst (Initialize d p w) = Inr ()
        \<and> fst (snd (Initialize d p w))
            = p\<lparr>description := desc,
                was_successful := was_successful p \<or> 0 < unat (DefaultConnections p),
                Connections := Connections p
                   @ replicate (unat (DefaultConnections p)) \<lparr>ref_count = 0\<rparr>,
                Initialized := True\<rparr>)
   \<and> (Initialized p \<longrightarrow> Initialize d p w = (Inr (), p, w))
   \<and> (\<forall>r p' w'. Initialized p \<and> Get fuel d this p w = Some (r, p', w') \<longrightarrow> Initialized p')
   \<and> (\<forall>r p' w'. Initialized p \<and> tryGet d this p w = (r, p', w') \<longrightarrow> Initialized p')
   \<and> (\<forall>r1 p1 w1. Initialize d p (emit Lock w) = (r1, p1, w1) \<longrightarrow>
        (\<exists>t. trace w1 = trace w @ Lock # t \<and> Lock \<notin> set t \<and> Unlock \<notin> set t)
      \<and> (\<forall>x. r1 = Inl x \<longrightarrow>
             Get fuel d this p w = Some (Inl x, p1, emit Unlock w1)
           \<and> tryGet d this p w = (Inl x, p1, emit Unlock w1))
      \<and> (r1 = Inr () \<longrightarrow>
             Get fuel d this p w
             = (case Get_loop fuel d this p1 w1 of
                  None \<Rightarrow> None
                | Some (r, p'', w'') \<Rightarrow> Some (r, p'', emit Unlock w''))))"
proof (intro conjI allI impI)
  fix p' w'
  assume a: "\<not> Initialized p \<and> Initialize d p w = (Inr (), p', w')"
  then have n: "\<not> Initialized p" and i: "Initialize d p w = (Inr (), p', w')" by simp_all
  show "Initialized p'"
    and "compose_description d (config_name p) = Inr (description p')"
    and "connects w' = connects w + unat (DefaultConnections p)"
    and "length (Connections p') \<le> length (Connections p) + unat (DefaultConnections p)"
    by (rule Initialize_completed [OF n i])+
next
  fix desc
  assume a: "\<not> Initialized p \<and> compose_description d (config_name p) = Inr desc
        \<and> (\<forall>k<unat (DefaultConnections p). connect_result d (connects w + k) = None)
        \<and> (InitConnect p = []
           \<or> (\<forall>k<unat (DefaultConnections p). execute_result d (executes w + k) = None))"
  then obtain w' where "Initialize d p w =
     (Inr (), p\<lparr>description := desc,
               was_successful := was_successful p \<or> 0 < unat (DefaultConnections p),
               Connections := Connections p
                  @ replicate (unat (DefaultConnections p)) \<lparr>ref_count = 0\<rparr>,
               Initialized := True\<rparr>, w')"
    using Initialize_all_connect [of p d desc w] by blast
  then show "fst (Initialize d p w) = Inr ()"
    and "fst (snd (Initialize d p w))
            = p\<lparr>description := desc,
                was_successful := was_successful p \<or> 0 < unat (DefaultConnections p),
                Connections := Connections p
                   @ replicate (unat (DefaultConnections p)) \<lparr>ref_count = 0\<rparr>,
                Initialized := True\<rparr>"
    by simp_all
next
  assume "Initialized p"
  then show "Initialize d p w = (Inr (), p, w)" by (rule Initialize_done)
next
  fix r p' w'
  assume "Initialized p \<and> Get fuel d this p w = Some (r, p', w')"
  then show "Initialized p'" using Get_frame(1) by blast
next
  fix r p' w'
  assume "Initialized p \<and> tryGet d this p w = (r, p', w')"
  then show "Initialized p'" using tryGet_frame(1) by blast
next
  fix r1 p1 w1
  assume i: "Initialize d p (emit Lock w) = (r1, p1, w1)"
  from Initialize_frame(7) [OF i]
  show "\<exists>t. trace w1 = trace w @ Lock # t \<and> Lock \<notin> set t \<and> Unlock \<notin> set t"
    by (auto simp: emit_def)
next
  fix r1 p1 w1 x
  assume i: "Initialize d p (emit Lock w) = (r1, p1, w1)" and "r1 = Inl x"
  then show "Get fuel d this p w = Some (Inl x, p1, emit Unlock w1)"
    and "tryGet d this p w = (Inl x, p1, emit Unlock w1)"
    by (simp_all add: Get_def tryGet_def)
next
  fix r1 p1 w1
  assume i: "Initialize d p (emit Lock w) = (r1, p1, w1)" and "r1 = Inr ()"
  then show "Get fuel d this p w
             = (case Get_loop fuel d this p1 w1 of
                  None \<Rightarrow> None
                | Some (r, p'', w'') \<Rightarrow> Some (r, p'', emit Unlock w''))"
    by (simp add: Get_def)
qed

text \<open>
  Against claim C7 as stated: with \<^verbatim>\<open>DefaultConnections = 2\<close>, a first \<^verbatim>\<open>connect\<close> that succeeds
  and a second that fails with the code 2003 (not fatal, daemon not cancelled),
  \<^verbatim>\<open>Initialize\<close> returns with \<^verbatim>\<open>Initialized\<close> set and one connection, not two: the \<^verbatim>\<open>NULL\<close> of
  the second \<^verbatim>\<open>AllocConnection\<close> is dropped.
\<close>

theorem Initialize_opens_fewer:
  "Initialize (scripted [None, Some 2003] [] [] []) (Pool_ctor ''mysql'' 2 16 []) world0
     = (Inr (),
        \<lparr>DefaultConnections = 2, MaxConnections = 16, InitConnect = [], Initialized = True,
         Connections = [\<lparr>ref_count = 0\<rparr>], config_name = ''mysql'',
         description = ''test@localhost:3306 as user root'', was_successful = True\<rparr>,
        \<lparr>connects = 2, pings = 0, executes = 0, cancel_checks = 1,
         trace = [Connect 0, Connect 1, IsCancelled]\<rparr>)"
  by (simp add: pool_defs env_defs demo_defs fuel_simps)

theorem Initialize_once_witness:
  "fst (Initialize (scripted [] [] [] []) (Pool_ctor ''mysql'' 2 16 []) world0) = Inr ()
   \<and> fst (snd (Initialize (scripted [] [] [] []) (Pool_ctor ''mysql'' 2 16 []) world0))
     = \<lparr>DefaultConnections = 2, MaxConnections = 16, InitConnect = [], Initialized = True,
        Connections = [\<lparr>ref_count = 0\<rparr>, \<lparr>ref_count = 0\<rparr>], config_name = ''mysql'',
        description = ''test@localhost:3306 as user root'', was_successful = True\<rparr>
   \<and> Initialize (scripted [Some 2003] [] [] [])
         (warm_pool 16 [\<lparr>ref_count = 0\<rparr>, \<lparr>ref_count = 0\<rparr>]) world0
     = (Inr (), warm_pool 16 [\<lparr>ref_count = 0\<rparr>, \<lparr>ref_count = 0\<rparr>], world0)"
proof -
  let ?d = "scripted [] [] [] []"
  let ?p = "Pool_ctor ''mysql'' 2 16 []"
  have rep: "replicate 2 x = [x, x]" for x :: Connection
    by (simp add: numeral_2_eq_2)
  have "\<not> Initialized ?p
      \<and> compose_description ?d (config_name ?p) = Inr ''test@localhost:3306 as user root''
      \<and> (\<forall>k<unat (DefaultConnections ?p). connect_result ?d (connects world0 + k) = None)
      \<and> (InitConnect ?p = []
         \<or> (\<forall>k<unat (DefaultConnections ?p). execute_result ?d (executes world0 + k) = None))"
    by (simp add: demo_defs compose_description_def getString_def getString_default_def)
  with Initialize_once [of ?p ?d world0 1 0]
  have "fst (Initialize ?d ?p world0) = Inr ()
      \<and> fst (snd (Initialize ?d ?p world0))
          = ?p\<lparr>description := ''test@localhost:3306 as user root'',
               was_successful := was_successful ?p \<or> 0 < unat (DefaultConnections ?p),
               Connections := Connections ?p
                  @ replicate (unat (DefaultConnections ?p)) \<lparr>ref_count = 0\<rparr>,
               Initialized := True\<rparr>"
    by blast
  then have a: "fst (Initialize ?d ?p world0) = Inr ()
      \<and> fst (snd (Initialize ?d ?p world0))
          = \<lparr>DefaultConnections = 2, MaxConnections = 16, InitConnect = [], Initialized = True,
             Connections = [\<lparr>ref_count = 0\<rparr>, \<lparr>ref_count = 0\<rparr>], config_name = ''mysql'',
             description = ''test@localhost:3306 as user root'', was_successful = True\<rparr>"
    by (simp add: Pool_ctor_def rep)
  have "Initialized (warm_pool 16 [\<lparr>ref_count = 0\<rparr>, \<lparr>ref_count = 0\<rparr>])"
    by (simp add: warm_pool_def)
  with Initialize_once [of "warm_pool 16 [\<lparr>ref_count = 0\<rparr>, \<lparr>ref_count = 0\<rparr>]"
                          "scripted [Some 2003] [] [] []" world0 1 0]
  have "Initialize (scripted [Some 2003] [] [] [])
         (warm_pool 16 [\<lparr>ref_count = 0\<rparr>, \<lparr>ref_count = 0\<rparr>]) world0
     = (Inr (), warm_pool 16 [\<lparr>ref_count = 0\<rparr>, \<lparr>ref_count = 0\<rparr>], world0)"
    by blast
  with a show ?thesis by blast
qed

subsection \<open>The first Get against a server that denies access\<close>






subsection \<open>was_successful is set before the initial statement runs\<close>

text \<open>
  Claim C9. When \<^verbatim>\<open>connect\<close> succeeds and the statement \<^verbatim>\<open>InitConnect\<close> (not empty) fails,
  \<^verbatim>\<open>AllocConnection\<close> throws what \<^verbatim>\<open>execute\<close> threw, the list of connections is as it was,
  and \<^verbatim>\<open>was_successful\<close> is true, whatever it was before. For every pool whose
  \<^verbatim>\<open>was_successful\<close> is true, a \<^verbatim>\<open>connect\<close> that fails with a code that is not fatal is not
  raised again: \<^verbatim>\<open>AllocConnection\<close> returns \<^verbatim>\<open>NULL\<close> (or throws the cancellation when the
  daemon is cancelled) and leaves the pool alone. And \<^verbatim>\<open>AllocConnection\<close>, \<^verbatim>\<open>Get\<close> and
  \<^verbatim>\<open>tryGet\<close> keep \<^verbatim>\<open>was_successful\<close> true, so this holds for all later calls.
\<close>

theorem AllocConnection_statement_fails:
  assumes "connect_result d (connects w) = None" and "InitConnect p \<noteq> []"
    and "execute_result d (executes w) = Some msg"
  shows "AllocConnection d b p w
           = (Inl (ExecuteFailed msg), p\<lparr>was_successful := True\<rparr>,
              w\<lparr>connects := connects w + 1, executes := executes w + 1,
                trace := trace w @ [Connect (length (Connections p)),
                                    Execute (length (Connections p)) (InitConnect p)]\<rparr>)
       \<and> Connections (p\<lparr>was_successful := True\<rparr>) = Connections p
       \<and> (\<forall>q d' b' w' errnum.
             was_successful q \<and> connect_result d' (connects w') = Some errnum
             \<and> \<not> fatal_errnum errnum
           \<longrightarrow> fst (AllocConnection d' b' q w')
                 = (if cancelled_result d' (cancel_checks w')
                    then Inl (PocoException cancelled_message) else Inr None)
             \<and> fst (snd (AllocConnection d' b' q w')) = q)
       \<and> (\<forall>q d' b' w' r q' w''.
             was_successful q \<and> AllocConnection d' b' q w' = (r, q', w'') \<longrightarrow> was_successful q')
       \<and> (\<forall>q d' fuel this w' r q' w''.
             was_successful q \<and> Get fuel d' this q w' = Some (r, q', w'') \<longrightarrow> was_successful q')
       \<and> (\<forall>q d' this w' r q' w''.
             was_successful q \<and> tryGet d' this q w' = (r, q', w'') \<longrightarrow> was_successful q')"
proof (intro conjI allI impI)
  show "AllocConnection d b p w
           = (Inl (ExecuteFailed msg), p\<lparr>was_successful := True\<rparr>,
              w\<lparr>connects := connects w + 1, executes := executes w + 1,
                trace := trace w @ [Connect (length (Connections p)),
                                    Execute (length (Connections p)) (InitConnect p)]\<rparr>)"
    using assms by (simp add: AllocConnection_def afterConnect_def env_defs Let_def)
  show "Connections (p\<lparr>was_successful := True\<rparr>) = Connections p"
    by simp
next
  fix q :: Pool and d' :: env and b' and w' :: world and errnum
  assume a: "was_successful q \<and> connect_result d' (connects w') = Some errnum
             \<and> \<not> fatal_errnum errnum"
  then show "fst (AllocConnection d' b' q w')
                 = (if cancelled_result d' (cancel_checks w')
                    then Inl (PocoException cancelled_message) else Inr None)"
    and "fst (snd (AllocConnection d' b' q w')) = q"
    by (cases "cancelled_result d' (cancel_checks w')";
        simp add: AllocConnection_def fatal_errnum_def cancelled_message_def env_defs Let_def)+
next
  fix q :: Pool and d' :: env and b' and w' :: world and r and q' :: Pool and w'' :: world
  assume "was_successful q \<and> AllocConnection d' b' q w' = (r, q', w'')"
  then show "was_successful q'" using AllocConnection_was_successful by blast
next
  fix q :: Pool and d' :: env and fuel this and w' :: world and r and q' :: Pool
    and w'' :: world
  assume "was_successful q \<and> Get fuel d' this q w' = Some (r, q', w'')"
  then show "was_successful q'" using Get_frame(2) by blast
next
  fix q :: Pool and d' :: env and this and w' :: world and r and q' :: Pool and w'' :: world
  assume "was_successful q \<and> tryGet d' this q w' = (r, q', w'')"
  then show "was_successful q'" using tryGet_frame(2) by blast
qed

theorem AllocConnection_statement_fails_witness:
  "AllocConnection (scripted [] [] [Some ''syntax error''] []) False
       (Pool_ctor ''mysql'' 1 16 ''SET NAMES cp1251'') world0
     = (Inl (ExecuteFailed ''syntax error''),
        (Pool_ctor ''mysql'' 1 16 ''SET NAMES cp1251'')\<lparr>was_successful := True\<rparr>,
        world0\<lparr>connects := 1, executes := 1,
               trace := [Connect 0, Execute 0 ''SET NAMES cp1251'']\<rparr>)
   \<and> fst (AllocConnection (scripted [None, Some 2003] [] [Some ''syntax error''] []) False
            ((Pool_ctor ''mysql'' 1 16 ''SET NAMES cp1251'')\<lparr>was_successful := True\<rparr>)
            (world0\<lparr>connects := 1, executes := 1,
                    trace := [Connect 0, Execute 0 ''SET NAMES cp1251'']\<rparr>))
     = Inr None"
proof -
  let ?d = "scripted [None, Some 2003] [] [Some ''syntax error''] []"
  let ?p = "Pool_ctor ''mysql'' 1 16 ''SET NAMES cp1251''"
  let ?w = "world0\<lparr>connects := 1, executes := 1,
                   trace := [Connect 0, Execute 0 ''SET NAMES cp1251'']\<rparr>"
  have h: "connect_result (scripted [] [] [Some ''syntax error''] []) (connects world0) = None"
    "InitConnect ?p \<noteq> []"
    "execute_result (scripted [] [] [Some ''syntax error''] []) (executes world0)
       = Some ''syntax error''"
    by (simp_all add: demo_defs)
  note th = AllocConnection_statement_fails [OF h, of False]
  from th have a: "AllocConnection (scripted [] [] [Some ''syntax error''] []) False ?p world0
     = (Inl (ExecuteFailed ''syntax error''), ?p\<lparr>was_successful := True\<rparr>, ?w)"
    by (simp add: demo_defs)
  have warm: "was_successful (?p\<lparr>was_successful := True\<rparr>)
      \<and> connect_result ?d (connects ?w) = Some 2003 \<and> \<not> fatal_errnum 2003"
    by (simp add: demo_defs fatal_errnum_def)
  from th [THEN conjunct2, THEN conjunct2, THEN conjunct1, rule_format,
           where q = "?p\<lparr>was_successful := True\<rparr>" and d' = ?d and w' = ?w
             and errnum = 2003 and b' = False, OF warm]
  have "fst (AllocConnection ?d False (?p\<lparr>was_successful := True\<rparr>) ?w)
      = (if cancelled_result ?d (cancel_checks ?w)
         then Inl (PocoException cancelled_message) else Inr None)"
    by (rule conjunct1)
  then have "fst (AllocConnection ?d False (?p\<lparr>was_successful := True\<rparr>) ?w) = Inr None"
    by (simp add: demo_defs)
  with a show ?thesis by blast
qed

subsection \<open>What an access through an entry does\<close>

text \<open>
  The loop of \<^verbatim>\<open>ForceConnected\<close> when \<open>n\<close> rounds end with a failed \<^verbatim>\<open>ping\<close> and the next
  round ends the loop, by a \<^verbatim>\<open>ping\<close> that succeeds or by a \<^verbatim>\<open>connect\<close> that raises.
\<close>

lemma reconnect_loop_until:
  assumes "\<forall>j<n. connect_result d (connects w + j) = None \<and> \<not> ping_result d (pings w + j)"
    and "connect_result d (connects w + n) = None" and "ping_result d (pings w + n)"
    and "n < fuel"
  shows "reconnect_loop fuel d a first w =
     Some (Inr (), w\<lparr>connects := connects w + n + 1, pings := pings w + n + 1,
                     trace := trace w @ (if first then [] else [Sleep 5]) @ [Connect a, Ping a]
                        @ concat (replicate n [Sleep 5, Connect a, Ping a])\<rparr>)"
  using assms
proof (induction n arbitrary: w first fuel)
  case 0
  then obtain k where "fuel = Suc k" by (cases fuel) auto
  with 0 show ?case by (simp add: env_defs)
next
  case (Suc n)
  then obtain k where k: "fuel = Suc k" and nk: "n < k" by (cases fuel) auto
  let ?w3 = "w\<lparr>connects := connects w + 1, pings := pings w + 1,
               trace := trace w @ (if first then [] else [Sleep 5]) @ [Connect a, Ping a]\<rparr>"
  from Suc.prems(1) have c0: "connect_result d (connects w) = None"
    and p0: "\<not> ping_result d (pings w)" by auto
  then have step: "reconnect_loop (Suc k) d a first w = reconnect_loop k d a False ?w3"
    by (simp add: env_defs)
  have "\<forall>j<n. connect_result d (connects ?w3 + j) = None \<and> \<not> ping_result d (pings ?w3 + j)"
    using Suc.prems(1) by auto
  moreover have "connect_result d (connects ?w3 + n) = None" "ping_result d (pings ?w3 + n)"
    using Suc.prems(2,3) by simp_all
  ultimately have "reconnect_loop k d a False ?w3 =
     Some (Inr (), ?w3\<lparr>connects := connects ?w3 + n + 1, pings := pings ?w3 + n + 1,
                     trace := trace ?w3 @ (if False then [] else [Sleep 5]) @ [Connect a, Ping a]
                        @ concat (replicate n [Sleep 5, Connect a, Ping a])\<rparr>)"
    using nk by (rule Suc.IH)
  with step k show ?case by simp
qed

lemma reconnect_loop_raises:
  assumes "\<forall>j<n. connect_result d (connects w + j) = None \<and> \<not> ping_result d (pings w + j)"
    and "connect_result d (connects w + n) = Some errnum"
    and "n < fuel"
  shows "reconnect_loop fuel d a first w =
     Some (Inl (ConnectionFailed errnum),
           w\<lparr>connects := connects w + n + 1, pings := pings w + n,
             trace := trace w @ (if first then [] else [Sleep 5])
                @ concat (replicate n [Connect a, Ping a, Sleep 5]) @ [Connect a]\<rparr>)"
  using assms
proof (induction n arbitrary: w first fuel)
  case 0
  then obtain k where "fuel = Suc k" by (cases fuel) auto
  with 0 show ?case by (simp add: env_defs)
next
  case (Suc n)
  then obtain k where k: "fuel = Suc k" and nk: "n < k" by (cases fuel) auto
  let ?w3 = "w\<lparr>connects := connects w + 1, pings := pings w + 1,
               trace := trace w @ (if first then [] else [Sleep 5]) @ [Connect a, Ping a]\<rparr>"
  from Suc.prems(1) have c0: "connect_result d (connects w) = None"
    and p0: "\<not> ping_result d (pings w)" by auto
  then have step: "reconnect_loop (Suc k) d a first w = reconnect_loop k d a False ?w3"
    by (simp add: env_defs)
  have "\<forall>j<n. connect_result d (connects ?w3 + j) = None \<and> \<not> ping_result d (pings ?w3 + j)"
    using Suc.prems(1) by auto
  moreover have "connect_result d (connects ?w3 + n) = Some errnum"
    using Suc.prems(2) by simp
  ultimately have "reconnect_loop k d a False ?w3 =
     Some (Inl (ConnectionFailed errnum),
           ?w3\<lparr>connects := connects ?w3 + n + 1, pings := pings ?w3 + n,
             trace := trace ?w3 @ (if False then [] else [Sleep 5])
                @ concat (replicate n [Connect a, Ping a, Sleep 5]) @ [Connect a]\<rparr>)"
    using nk by (rule Suc.IH)
  with step k show ?case by simp
qed

text \<open>
  When the loop ends without an exception, the last thing it did was a \<^verbatim>\<open>ping\<close> that
  succeeded.
\<close>

lemma reconnect_loop_alive:
  "reconnect_loop fuel d a first w = Some (Inr u, w') \<Longrightarrow>
     pings w < pings w' \<and> ping_result d (pings w' - 1) \<and> executes w' = executes w
     \<and> connects w < connects w'
     \<and> (\<exists>t. trace w' = trace w @ t @ [Ping a])"
proof (induction fuel arbitrary: w first)
  case 0
  then show ?case by simp
next
  case (Suc fuel)
  let ?w1 = "if first then w else emit (Sleep 5) w"
  let ?w2 = "snd (conn_connect d a ?w1)"
  let ?w3 = "snd (conn_ping d a ?w2)"
  from Suc.prems have c: "connect_result d (connects w) = None"
    by (auto simp: env_defs split: option.splits if_splits)
  have w3: "pings ?w3 = pings w + 1" "executes ?w3 = executes w"
    "connects ?w3 = connects w + 1"
    "trace ?w3 = trace w @ ((if first then [] else [Sleep 5]) @ [Connect a]) @ [Ping a]"
    by (simp_all add: env_defs)
  show ?case
  proof (cases "ping_result d (pings w)")
    case True
    with Suc.prems c have "w' = ?w3" by (auto simp: env_defs)
    with True w3 show ?thesis by (metis add_diff_cancel_right' less_add_one)
  next
    case False
    with Suc.prems c have "reconnect_loop fuel d a False ?w3 = Some (Inr u, w')"
      by (auto simp: env_defs)
    from Suc.IH [OF this] obtain t where "pings ?w3 < pings w'"
      and "ping_result d (pings w' - 1)" and "executes w' = executes ?w3"
      and "connects ?w3 < connects w'"
      and "trace w' = trace ?w3 @ t @ [Ping a]" by blast
    with w3 show ?thesis
      by (auto intro: exI [of _ "((if first then [] else [Sleep 5]) @ [Connect a]) @ [Ping a] @ t"])
  qed
qed

text \<open>
  Claim C6. An access through an empty entry throws "Tried to access NULL database
  connection.". Through an entry on connection \<open>a\<close>: when the first \<^verbatim>\<open>ping\<close> succeeds the
  access returns \<open>a\<close> at once, with no \<^verbatim>\<open>connect\<close> and no statement. When it fails, the loop
  calls \<^verbatim>\<open>connect\<close> and \<^verbatim>\<open>ping\<close> again, at once in the first round and after \<^verbatim>\<open>sleep(5)\<close> in
  every later round, until a \<^verbatim>\<open>ping\<close> succeeds; then \<^verbatim>\<open>afterConnect\<close> runs once and the
  access returns \<open>a\<close> (or throws what the statement threw). A \<^verbatim>\<open>ConnectionFailed\<close> of
  \<^verbatim>\<open>connect\<close> leaves the access as it is, with its code. And whenever an access returns, the
  last \<^verbatim>\<open>ping\<close> made has succeeded, no \<^verbatim>\<open>connect\<close> came after it, and the statement was
  executed once if there was a reconnect and a statement, and not at all otherwise. The loop
  has no bound: \<open>n < fuel\<close> says that the fuel covers the \<open>n + 1\<close> rounds.
\<close>

theorem Entry_access_contract:
  "(data e = None \<longrightarrow>
      Entry_access fuel d e p w
      = Some (Inl (RuntimeException ''Tried to access NULL database connection.''), w))
   \<and> (\<forall>a. data e = Some a \<and> ping_result d (pings w) \<longrightarrow>
        Entry_access fuel d e p w
        = Some (Inr a, w\<lparr>pings := pings w + 1, trace := trace w @ [Ping a]\<rparr>))
   \<and> (\<forall>a n. data e = Some a \<and> \<not> ping_result d (pings w)
          \<and> (\<forall>j<n. connect_result d (connects w + j) = None
                   \<and> \<not> ping_result d (pings w + 1 + j))
          \<and> connect_result d (connects w + n) = None \<and> ping_result d (pings w + 1 + n)
          \<and> n < fuel \<longrightarrow>
        Entry_access fuel d e p w
        = (case afterConnect d p a
                  (w\<lparr>connects := connects w + n + 1, pings := pings w + n + 2,
                     trace := trace w @ [Ping a, Connect a, Ping a]
                        @ concat (replicate n [Sleep 5, Connect a, Ping a])\<rparr>) of
             (Inl x, w') \<Rightarrow> Some (Inl x, w')
           | (Inr u, w') \<Rightarrow> Some (Inr a, w')))
   \<and> (\<forall>a n errnum. data e = Some a \<and> \<not> ping_result d (pings w)
          \<and> (\<forall>j<n. connect_result d (connects w + j) = None
                   \<and> \<not> ping_result d (pings w + 1 + j))
          \<and> connect_result d (connects w + n) = Some errnum \<and> n < fuel \<longrightarrow>
        Entry_access fuel d e p w
        = Some (Inl (ConnectionFailed errnum),
                w\<lparr>connects := connects w + n + 1, pings := pings w + n + 1,
                  trace := trace w @ [Ping a]
                     @ concat (replicate n [Connect a, Ping a, Sleep 5]) @ [Connect a]\<rparr>))
   \<and> (\<forall>a w'. Entry_access fuel d e p w = Some (Inr a, w') \<longrightarrow>
        data e = Some a \<and> pings w < pings w' \<and> ping_result d (pings w' - 1)
        \<and> executes w' = executes w
             + (if connects w < connects w' \<and> InitConnect p \<noteq> [] then 1 else 0)
        \<and> (\<exists>t. trace w' = trace w @ t @ [Ping a]
                  @ (if connects w < connects w' \<and> InitConnect p \<noteq> []
                     then [Execute a (InitConnect p)] else [])))"
proof (intro conjI allI impI)
  assume "data e = None"
  then show "Entry_access fuel d e p w
      = Some (Inl (RuntimeException ''Tried to access NULL database connection.''), w)"
    by (simp add: Entry_access_def)
next
  fix a
  assume "data e = Some a \<and> ping_result d (pings w)"
  then show "Entry_access fuel d e p w
        = Some (Inr a, w\<lparr>pings := pings w + 1, trace := trace w @ [Ping a]\<rparr>)"
    by (simp add: Entry_access_def ForceConnected_def env_defs)
next
  fix a n
  assume h: "data e = Some a \<and> \<not> ping_result d (pings w)
          \<and> (\<forall>j<n. connect_result d (connects w + j) = None
                   \<and> \<not> ping_result d (pings w + 1 + j))
          \<and> connect_result d (connects w + n) = None \<and> ping_result d (pings w + 1 + n)
          \<and> n < fuel"
  let ?w1 = "w\<lparr>pings := pings w + 1, trace := trace w @ [Ping a]\<rparr>"
  have "reconnect_loop fuel d a True ?w1 =
     Some (Inr (), ?w1\<lparr>connects := connects ?w1 + n + 1, pings := pings ?w1 + n + 1,
                     trace := trace ?w1 @ (if True then [] else [Sleep 5]) @ [Connect a, Ping a]
                        @ concat (replicate n [Sleep 5, Connect a, Ping a])\<rparr>)"
    by (rule reconnect_loop_until) (use h in \<open>simp_all add: add.commute\<close>)
  with h show "Entry_access fuel d e p w
        = (case afterConnect d p a
                  (w\<lparr>connects := connects w + n + 1, pings := pings w + n + 2,
                     trace := trace w @ [Ping a, Connect a, Ping a]
                        @ concat (replicate n [Sleep 5, Connect a, Ping a])\<rparr>) of
             (Inl x, w') \<Rightarrow> Some (Inl x, w')
           | (Inr u, w') \<Rightarrow> Some (Inr a, w'))"
    by (simp add: Entry_access_def ForceConnected_def env_defs add.commute
          split: prod.splits sum.splits)
next
  fix a n errnum
  assume h: "data e = Some a \<and> \<not> ping_result d (pings w)
          \<and> (\<forall>j<n. connect_result d (connects w + j) = None
                   \<and> \<not> ping_result d (pings w + 1 + j))
          \<and> connect_result d (connects w + n) = Some errnum \<and> n < fuel"
  let ?w1 = "w\<lparr>pings := pings w + 1, trace := trace w @ [Ping a]\<rparr>"
  have "reconnect_loop fuel d a True ?w1 =
     Some (Inl (ConnectionFailed errnum),
           ?w1\<lparr>connects := connects ?w1 + n + 1, pings := pings ?w1 + n,
             trace := trace ?w1 @ (if True then [] else [Sleep 5])
                @ concat (replicate n [Connect a, Ping a, Sleep 5]) @ [Connect a]\<rparr>)"
    by (rule reconnect_loop_raises) (use h in \<open>simp_all add: add.commute\<close>)
  with h show "Entry_access fuel d e p w
        = Some (Inl (ConnectionFailed errnum),
                w\<lparr>connects := connects w + n + 1, pings := pings w + n + 1,
                  trace := trace w @ [Ping a]
                     @ concat (replicate n [Connect a, Ping a, Sleep 5]) @ [Connect a]\<rparr>)"
    by (simp add: Entry_access_def ForceConnected_def env_defs add.commute)
next
  fix a w'
  assume r: "Entry_access fuel d e p w = Some (Inr a, w')"
  then have a: "data e = Some a"
    by (auto simp: Entry_access_def split: option.splits sum.splits)
  with r have f: "ForceConnected fuel d a p w = Some (Inr (), w')"
    by (auto simp: Entry_access_def split: option.splits sum.splits)
  let ?w1 = "w\<lparr>pings := pings w + 1, trace := trace w @ [Ping a]\<rparr>"
  have "pings w < pings w' \<and> ping_result d (pings w' - 1)
        \<and> executes w' = executes w
             + (if connects w < connects w' \<and> InitConnect p \<noteq> [] then 1 else 0)
        \<and> (\<exists>t. trace w' = trace w @ t @ [Ping a]
                  @ (if connects w < connects w' \<and> InitConnect p \<noteq> []
                     then [Execute a (InitConnect p)] else []))"
  proof (cases "ping_result d (pings w)")
    case True
    with f have "w' = ?w1" by (simp add: ForceConnected_def env_defs)
    with True show ?thesis by simp
  next
    case False
    with f obtain w2 where l: "reconnect_loop fuel d a True ?w1 = Some (Inr (), w2)"
      and ac: "afterConnect d p a w2 = (Inr (), w')"
      by (auto simp: ForceConnected_def env_defs split: option.splits sum.splits)
    from reconnect_loop_alive [OF l] obtain t where
      w2: "pings ?w1 < pings w2" "ping_result d (pings w2 - 1)" "executes w2 = executes ?w1"
        "connects ?w1 < connects w2" "trace w2 = trace ?w1 @ t @ [Ping a]"
      by blast
    show ?thesis
    proof (cases "InitConnect p = []")
      case True
      with ac have "w' = w2" by (simp add: afterConnect_def)
      with w2 True show ?thesis by (auto intro: exI [of _ "Ping a # t"])
    next
      case False
      with ac have "w' = w2\<lparr>executes := executes w2 + 1,
                             trace := trace w2 @ [Execute a (InitConnect p)]\<rparr>"
        by (auto simp: afterConnect_def env_defs split: option.splits)
      with w2 False show ?thesis by (auto intro: exI [of _ "Ping a # t"])
    qed
  qed
  with a show "data e = Some a" and "pings w < pings w'" and "ping_result d (pings w' - 1)"
    and "executes w' = executes w
             + (if connects w < connects w' \<and> InitConnect p \<noteq> [] then 1 else 0)"
    and "\<exists>t. trace w' = trace w @ t @ [Ping a]
                  @ (if connects w < connects w' \<and> InitConnect p \<noteq> []
                     then [Execute a (InitConnect p)] else [])"
    by blast+
qed

theorem Entry_access_contract_witness:
  "Entry_access 2 (scripted [] [False, False] [] []) \<lparr>data = Some 0, pool = Some 0\<rparr>
       ((warm_pool 4 [\<lparr>ref_count = 1\<rparr>])\<lparr>InitConnect := ''SET NAMES cp1251''\<rparr>) world0
     = Some (Inr 0, world0\<lparr>connects := 2, pings := 3, executes := 1,
                           trace := [Ping 0, Connect 0, Ping 0, Sleep 5, Connect 0, Ping 0,
                                     Execute 0 ''SET NAMES cp1251'']\<rparr>)
   \<and> Entry_access 2 (scripted [] [False, False] [] []) Entry_default
       ((warm_pool 4 [\<lparr>ref_count = 1\<rparr>])\<lparr>InitConnect := ''SET NAMES cp1251''\<rparr>) world0
     = Some (Inl (RuntimeException ''Tried to access NULL database connection.''), world0)"
proof -
  let ?d = "scripted [] [False, False] [] []"
  let ?e = "\<lparr>data = Some 0, pool = Some 0\<rparr>"
  let ?p = "(warm_pool 4 [\<lparr>ref_count = 1\<rparr>])\<lparr>InitConnect := ''SET NAMES cp1251''\<rparr>"
  have dead: "data ?e = Some 0 \<and> \<not> ping_result ?d (pings world0)
      \<and> (\<forall>j<1. connect_result ?d (connects world0 + j) = None
               \<and> \<not> ping_result ?d (pings world0 + 1 + j))
      \<and> connect_result ?d (connects world0 + 1) = None
      \<and> ping_result ?d (pings world0 + 1 + 1) \<and> (1::nat) < 2"
    by (simp add: demo_defs)
  from Entry_access_contract [of ?e 2 ?d ?p world0,
         THEN conjunct2, THEN conjunct2, THEN conjunct1, rule_format,
         where a = 0 and n = 1, OF dead]
  have a: "Entry_access 2 ?d ?e ?p world0
     = Some (Inr 0, world0\<lparr>connects := 2, pings := 3, executes := 1,
                           trace := [Ping 0, Connect 0, Ping 0, Sleep 5, Connect 0, Ping 0,
                                     Execute 0 ''SET NAMES cp1251'']\<rparr>)"
    by (simp add: warm_pool_def afterConnect_def env_defs demo_defs)
  have "data Entry_default = None"
    by (simp add: Entry_default_def)
  then have b: "Entry_access 2 ?d Entry_default ?p world0
     = Some (Inl (RuntimeException ''Tried to access NULL database connection.''), world0)"
    by (rule Entry_access_contract [of Entry_default 2 ?d ?p world0, THEN conjunct1, rule_format])
  from a b show ?thesis by (rule conjI)
qed

subsection \<open>Where the bound MaxConnections does hold\<close>

lemma Get_loop_length:
  "Get_loop fuel d this p w = Some (r, p', w') \<Longrightarrow>
     length (Connections p') \<le> max (length (Connections p)) (unat (MaxConnections p))"
proof (induction fuel arbitrary: p w)
  case 0
  then show ?case by simp
next
  case (Suc fuel)
  show ?case
  proof (cases "find_idle (Connections p) 0")
    case (Some i)
    with Suc.prems show ?thesis by (auto simp: Entry_ctor_def)
  next
    case None
    show ?thesis
    proof (cases "length (Connections p) < unat (MaxConnections p)")
      case False
      with Suc.prems None have "Get_loop fuel d this p (backoff w) = Some (r, p', w')"
        by simp
      from Suc.IH [OF this] show ?thesis .
    next
      case True
      obtain r1 p1 w1 where a: "AllocConnection d False p w = (r1, p1, w1)"
        by (cases "AllocConnection d False p w") auto
      note f = AllocConnection_frame(2,8) [OF a]
      show ?thesis
      proof (cases r1)
        case (Inl x)
        with Suc.prems None True a have "p' = p1" by simp
        with f True show ?thesis by simp
      next
        case (Inr c)
        show ?thesis
        proof (cases c)
          case none: None
          with a Inr have "Connections p1 = Connections p"
            by (intro AllocConnection_not_Some [OF a]) simp
          moreover from Suc.prems None True a Inr none
          have "Get_loop fuel d this p1 (backoff w1) = Some (r, p', w')" by simp
          from Suc.IH [OF this] have "length (Connections p')
              \<le> max (length (Connections p1)) (unat (MaxConnections p1))" .
          ultimately show ?thesis using f by simp
        next
          case (Some conn)
          with Suc.prems None True a Inr
          have "p' = p1\<lparr>Connections := inc_ref conn (Connections p1)\<rparr>"
            by (simp add: Entry_ctor_def)
          with f True show ?thesis by simp
        qed
      qed
    qed
  qed
qed

text \<open>
  The growth paths keep the bound that \<^verbatim>\<open>Initialize\<close> does not: on an initialised pool whose
  list is within \<^verbatim>\<open>MaxConnections\<close>, whatever \<^verbatim>\<open>Get\<close> or \<^verbatim>\<open>tryGet\<close> return or throw, the
  pool stays initialised and the list stays within \<^verbatim>\<open>MaxConnections\<close>. So every sequence
  of calls that starts from such a pool stays within the bound.
\<close>

theorem growth_respects_MaxConnections:
  assumes "Initialized p" and "length (Connections p) \<le> unat (MaxConnections p)"
  shows "(\<forall>r p' w'. Get fuel d this p w = Some (r, p', w') \<longrightarrow>
            Initialized p' \<and> length (Connections p') \<le> unat (MaxConnections p'))
       \<and> (\<forall>r p' w'. tryGet d this p w = (r, p', w') \<longrightarrow>
            Initialized p' \<and> length (Connections p') \<le> unat (MaxConnections p'))"
proof (intro conjI allI impI)
  fix r p' w'
  assume g: "Get fuel d this p w = Some (r, p', w')"
  from assms(1) have "Initialize d p (emit Lock w) = (Inr (), p, emit Lock w)"
    by (rule Initialize_done)
  with g obtain w2 where l: "Get_loop fuel d this p (emit Lock w) = Some (r, p', w2)"
    by (auto simp: Get_def split: option.splits)
  from Get_loop_length [OF l] Get_loop_result [OF l] assms
  show "Initialized p'" and "length (Connections p') \<le> unat (MaxConnections p')"
    by simp_all
next
  fix r p' w'
  assume t: "tryGet d this p w = (r, p', w')"
  from assms(1) have i: "Initialize d p (emit Lock w) = (Inr (), p, emit Lock w)"
    by (rule Initialize_done)
  obtain r2 p2 w2 where a: "AllocConnection d True p (emit Lock w) = (r2, p2, w2)"
    by (cases "AllocConnection d True p (emit Lock w)") auto
  note f = AllocConnection_frame(2,4,8) [OF a]
  from t i a f assms
  have "Initialized p' \<and> length (Connections p') \<le> unat (MaxConnections p')"
    by (auto simp: tryGet_def Entry_ctor_def Entry_copy_def Entry_dtor_def
          tryForceConnected_def conn_ping_def
          split: sum.splits option.splits if_splits bool.splits)
  then show "Initialized p'" and "length (Connections p') \<le> unat (MaxConnections p')"
    by simp_all
qed

theorem growth_respects_MaxConnections_witness:
  "length (Connections (fst (snd (tryGet (scripted [] [] [] []) 0
       (warm_pool 2 [\<lparr>ref_count = 1\<rparr>, \<lparr>ref_count = 1\<rparr>]) world0)))) \<le> 2
   \<and> fst (tryGet (scripted [] [] [] []) 0
       (warm_pool 2 [\<lparr>ref_count = 1\<rparr>, \<lparr>ref_count = 1\<rparr>]) world0)
     = Inl (PocoException ''mysqlxx::Pool is full'')"
proof -
  let ?p = "warm_pool 2 [\<lparr>ref_count = 1\<rparr>, \<lparr>ref_count = 1\<rparr>]"
  let ?d = "scripted [] [] [] []"
  have h: "Initialized ?p" "length (Connections ?p) \<le> unat (MaxConnections ?p)"
    by (simp_all add: warm_pool_def)
  obtain r p' w' where t: "tryGet ?d 0 ?p world0 = (r, p', w')"
    by (cases "tryGet ?d 0 ?p world0") auto
  with growth_respects_MaxConnections [OF h, of 0 ?d 0 world0]
  have "length (Connections p') \<le> unat (MaxConnections p')" by blast
  moreover have "MaxConnections p' = 2" and "r = Inl (PocoException ''mysqlxx::Pool is full'')"
    using t by (auto simp: tryGet_def Initialize_def warm_pool_def)
  ultimately show ?thesis using t by simp
qed

end
